theory Spec2Isabelle
  imports Complex_Main
begin

section \<open>Numbers of the source language\<close>

text \<open>
  The calculator is written in JavaScript; every quantity is a Number. A Number is
  modelled as a finite value, \<open>NaN\<close>, or one of the two infinities. Finite values are
  taken as real numbers: arithmetic on them is exact, so the rounding error and the
  overflow of IEEE doubles are outside this model, and so is the sign of zero. The special
  values combine as IEEE 754 prescribes.
\<close>

datatype jsnum = Fin real | NaN | PInf | NInf

text \<open>\<^verbatim>\<open>Number.isFinite(x)\<close>\<close>

fun isFinite :: "jsnum \<Rightarrow> bool" where
  "isFinite (Fin _) = True"
| "isFinite _ = False"

text \<open>
  The real value of a finite Number, and 0 for NaN and the infinities: the results of
  \<open>parse\<close> are finite or NaN, so that \<open>val x\<close> is the value of \<^verbatim>\<open>x || 0\<close> for them.
\<close>

fun val :: "jsnum \<Rightarrow> real" where
  "val (Fin r) = r"
| "val _ = 0"

text \<open>\<^verbatim>\<open>x || 0\<close>: the falsy Numbers are zero and NaN.\<close>

definition orz :: "jsnum \<Rightarrow> jsnum" where
  "orz x = (if x = NaN \<or> x = Fin 0 then Fin 0 else x)"

fun jneg :: "jsnum \<Rightarrow> jsnum" where
  "jneg (Fin a) = Fin (- a)"
| "jneg NaN = NaN"
| "jneg PInf = NInf"
| "jneg NInf = PInf"

fun jadd :: "jsnum \<Rightarrow> jsnum \<Rightarrow> jsnum" where
  "jadd NaN _ = NaN"
| "jadd _ NaN = NaN"
| "jadd (Fin a) (Fin b) = Fin (a + b)"
| "jadd PInf NInf = NaN"
| "jadd NInf PInf = NaN"
| "jadd PInf _ = PInf"
| "jadd _ PInf = PInf"
| "jadd NInf _ = NInf"
| "jadd _ NInf = NInf"

definition jsub :: "jsnum \<Rightarrow> jsnum \<Rightarrow> jsnum" where
  "jsub a b = jadd a (jneg b)"

fun jmul :: "jsnum \<Rightarrow> jsnum \<Rightarrow> jsnum" where
  "jmul NaN _ = NaN"
| "jmul _ NaN = NaN"
| "jmul (Fin a) (Fin b) = Fin (a * b)"
| "jmul (Fin a) PInf = (if a = 0 then NaN else if 0 < a then PInf else NInf)"
| "jmul (Fin a) NInf = (if a = 0 then NaN else if 0 < a then NInf else PInf)"
| "jmul PInf (Fin b) = (if b = 0 then NaN else if 0 < b then PInf else NInf)"
| "jmul NInf (Fin b) = (if b = 0 then NaN else if 0 < b then NInf else PInf)"
| "jmul PInf PInf = PInf"
| "jmul NInf NInf = PInf"
| "jmul PInf NInf = NInf"
| "jmul NInf PInf = NInf"

text \<open>Division; a zero divisor is read as \<open>+0\<close>.\<close>

fun jdiv :: "jsnum \<Rightarrow> jsnum \<Rightarrow> jsnum" where
  "jdiv NaN _ = NaN"
| "jdiv _ NaN = NaN"
| "jdiv (Fin a) (Fin b) =
     (if b \<noteq> 0 then Fin (a / b) else if a = 0 then NaN else if 0 < a then PInf else NInf)"
| "jdiv (Fin a) _ = Fin 0"
| "jdiv PInf (Fin b) = (if 0 \<le> b then PInf else NInf)"
| "jdiv NInf (Fin b) = (if 0 \<le> b then NInf else PInf)"
| "jdiv _ _ = NaN"

text \<open>\<^verbatim>\<open>a < b\<close>, \<^verbatim>\<open>a > b\<close> and \<^verbatim>\<open>a >= b\<close>: every comparison with NaN is false.\<close>

fun jlt :: "jsnum \<Rightarrow> jsnum \<Rightarrow> bool" where
  "jlt NaN _ = False"
| "jlt _ NaN = False"
| "jlt (Fin a) (Fin b) = (a < b)"
| "jlt _ NInf = False"
| "jlt NInf _ = True"
| "jlt PInf _ = False"
| "jlt _ PInf = True"

definition jgt :: "jsnum \<Rightarrow> jsnum \<Rightarrow> bool" where
  "jgt a b = jlt b a"

definition jge :: "jsnum \<Rightarrow> jsnum \<Rightarrow> bool" where
  "jge a b = (a \<noteq> NaN \<and> b \<noteq> NaN \<and> \<not> jlt a b)"

text \<open>\<^verbatim>\<open>Math.round\<close> (to the nearest integer, a tie going up) and \<^verbatim>\<open>Math.abs\<close>.\<close>

fun Math_round :: "jsnum \<Rightarrow> jsnum" where
  "Math_round (Fin a) = Fin (of_int \<lfloor>a + 1 / 2\<rfloor>)"
| "Math_round x = x"

fun Math_abs :: "jsnum \<Rightarrow> jsnum" where
  "Math_abs (Fin a) = Fin \<bar>a\<bar>"
| "Math_abs NaN = NaN"
| "Math_abs _ = PInf"

text \<open>
  The number that \<^verbatim>\<open>parseFloat\<close> reads back from \<^verbatim>\<open>x.toFixed(2)\<close>, for a finite
  \<open>x\<close>: the nearest multiple of 0.01, a tie going away from zero; from \<open>10^21\<close> on
  \<^verbatim>\<open>toFixed\<close> prints the number itself.
\<close>

definition toFixed2 :: "real \<Rightarrow> real" where
  "toFixed2 x =
     (if 10 ^ 21 \<le> \<bar>x\<bar> then x else sgn x * of_int \<lfloor>\<bar>x\<bar> * 100 + 1 / 2\<rfloor> / 100)"

section \<open>physiology.js: the formula library\<close>

text \<open>
  The three functions are called by \<open>computeAll\<close> only under \<^verbatim>\<open>Number.isFinite\<close>
  guards on both arguments, so they are modelled on finite arguments.
  \<^verbatim>\<open>Math.pow(10, x)\<close> is \<open>10 powr x\<close>.
\<close>

definition hco3FromPHandPco2 :: "real \<Rightarrow> real \<Rightarrow> real" where
  "hco3FromPHandPco2 pH pCO2 = 0.03 * pCO2 * 10 powr (pH - 6.1)"

definition HIS_NB :: "real list" where
  "HIS_NB = [7.12, 7.22, 7.10, 7.49, 7.01]"

definition HIS_STD :: "real list" where
  "HIS_STD = [7.31, 6.75, 6.36, 4.85, 5.76, 6.17, 6.73, 5.82, 5.10, 6.70, 6.20]"

definition albuminCharge :: "real \<Rightarrow> real \<Rightarrow> real" where
  "albuminCharge albGperL pH =
     (let albMM = albGperL / 66.5;
          NB = 0.4 * (1 - 1 / (1 + 10 powr (pH - 6.9)));
          his0 = fold (\<lambda>p his. his + 1 / (1 + 10 powr (pH - (p - NB)))) HIS_NB 0;
          his = fold (\<lambda>p his. his + 1 / (1 + 10 powr (pH - p))) HIS_STD his0;
          lys = 2 / (1 + 10 powr (pH - 5.800))
              + 2 / (1 + 10 powr (pH - 6.150))
              + 2 / (1 + 10 powr (pH - 7.510))
              + 2 / (1 + 10 powr (pH - 7.685))
              + 1 / (1 + 10 powr (pH - 7.860))
              + 50 / (1 + 10 powr (pH - 10.30));
          arg = 24 / (1 + 10 powr (pH - 12.5));
          nh2 = 1 / (1 + 10 powr (pH - 8.0));
          acooh = - 1 / (1 + 10 powr (3.1 - pH));
          aspGlu = - 98 / (1 + 10 powr (3.9 - pH));
          cys = - 1 / (1 + 10 powr (8.5 - pH));
          tyr = - 18 / (1 + 10 powr (11.7 - pH));
          netPerMol = his + lys + arg + nh2 + acooh + aspGlu + cys + tyr
      in - albMM * netPerMol)"

definition phosphateCharge :: "real \<Rightarrow> real \<Rightarrow> real" where
  "phosphateCharge phos pH =
     (let K1 = 10 powr (- 1.915);
          K2 = 10 powr (- 6.66);
          K3 = 10 powr (- 11.78);
          H = 10 powr (- pH);
          d = H * H * H + K1 * H * H + K1 * K2 * H + K1 * K2 * K3;
          z = (K1 * H * H + 2 * K1 * K2 * H + 3 * K1 * K2 * K3) / d
      in phos * z)"

text \<open>
  The residue inventory of the Figge-Fencl model as the specification lists it, to be
  compared with \<open>albuminCharge\<close>: the basic groups (count, pKa) contribute
  \<open>count / (1 + 10^(pH - pKa))\<close>, the acidic groups \<open>- count / (1 + 10^(pKa - pH))\<close>,
  and the five domain-1 histidines have their pKa lowered by \<open>NB(pH)\<close>.
\<close>

definition NB_shift :: "real \<Rightarrow> real" where
  "NB_shift pH = 0.4 * (1 - 1 / (1 + 10 powr (pH - 6.9)))"

definition LYS_GROUPS :: "(real \<times> real) list" where
  "LYS_GROUPS = [(2, 5.800), (2, 6.150), (2, 7.510), (2, 7.685), (1, 7.860), (50, 10.30)]"

definition basic_groups :: "real \<Rightarrow> (real \<times> real) list" where
  "basic_groups pH =
     map (\<lambda>p. (1, p - NB_shift pH)) HIS_NB @ map (\<lambda>p. (1, p)) HIS_STD
     @ LYS_GROUPS @ [(24, 12.5), (1, 8.0)]"

definition acidic_groups :: "(real \<times> real) list" where
  "acidic_groups = [(1, 3.1), (98, 3.9), (1, 8.5), (18, 11.7)]"

definition inventory_charge :: "real \<Rightarrow> real" where
  "inventory_charge pH =
     (\<Sum>(n, p) \<leftarrow> basic_groups pH. n / (1 + 10 powr (pH - p)))
     - (\<Sum>(n, p) \<leftarrow> acidic_groups. n / (1 + 10 powr (p - pH)))"

section \<open>units.js: conversion factors and helpers\<close>

definition MG_FACTOR :: real where "MG_FACTOR = 10 / 24.305"
definition CA_FACTOR :: real where "CA_FACTOR = 10 / 40.08"
definition LAC_FACTOR :: real where "LAC_FACTOR = 10 / 89.07"
definition PO4_FACTOR :: real where "PO4_FACTOR = 10 / 30.97"



section \<open>The page as the code reads it\<close>

text \<open>
  What \<open>computeAll\<close> and \<open>renderGamblegram\<close> read from the document:
  \<^item> \<open>field d i\<close>: \<^verbatim>\<open>parseFloat(node.value)\<close> for the node that \<open>parse\<close> selects for the
    id \<open>i\<close> (\<^verbatim>\<open>el(id) || el(id + "-picker")\<close>), and \<open>NaN\<close> when there is no such node;
  \<^item> \<open>unit_sel d i\<close>: the value of the unit selector with id \<open>i\<close>, if it exists;
  \<^item> \<open>use_bmp d\<close>: the box \<^verbatim>\<open>use-bmp-hco3\<close> exists and is checked;
  \<^item> \<open>hco3El d\<close>: the element \<^verbatim>\<open>hco3\<close> exists;
  \<^item> \<open>results_panel d\<close>: the elements \<^verbatim>\<open>res-sida\<close>, \<^verbatim>\<open>res-side\<close>, \<^verbatim>\<open>res-sig\<close> and
    \<^verbatim>\<open>res-ag\<close> exist (their \<^verbatim>\<open>textContent\<close> is written without a test);
  \<^item> \<open>gg_elements d\<close>: \<^verbatim>\<open>gg-svg\<close>, \<^verbatim>\<open>gg-legend\<close> and \<^verbatim>\<open>gg-unknown\<close> exist;
  \<^item> \<open>css d n\<close>: the trimmed value of the custom property \<open>n\<close>.
\<close>

record dom =
  field :: "string \<Rightarrow> jsnum"
  unit_sel :: "string \<Rightarrow> string option"
  use_bmp :: bool
  hco3El :: bool
  results_panel :: bool
  gg_elements :: bool
  css :: "string \<Rightarrow> string"

datatype js_error = TypeError

text \<open>helpers.js, \<open>parse\<close>: a reading that is not finite becomes \<open>NaN\<close>.\<close>

definition parse :: "dom \<Rightarrow> string \<Rightarrow> jsnum" where
  "parse d ident = (let x = field d ident in if isFinite x then x else NaN)"

text \<open>units.js, \<open>getIonSI\<close>.\<close>

definition getIonSI :: "dom \<Rightarrow> string \<Rightarrow> jsnum" where
  "getIonSI d ident =
     (let raw = parse d ident in
      if \<not> isFinite raw then NaN
      else
        let unit = (case unit_sel d (ident @ ''-unit'') of None \<Rightarrow> ''si'' | Some u \<Rightarrow> u) in
        if unit = ''mgdl'' \<and> ident = ''mg'' then jmul raw (Fin MG_FACTOR)
        else if unit = ''mgdl'' \<and> ident = ''ica'' then jmul raw (Fin CA_FACTOR)
        else if unit = ''mgdl'' \<and> ident = ''lac'' then jmul raw (Fin LAC_FACTOR)
        else if unit = ''mgdl'' \<and> ident = ''phos'' then jmul raw (Fin PO4_FACTOR)
        else raw)"

section \<open>gamblegram.js: the two stacks\<close>

text \<open>The object that \<open>computeAll\<close> passes to \<open>renderGamblegram\<close>.\<close>

record vals =
  vals_Na :: jsnum
  vals_K :: jsnum
  vals_iCa :: jsnum
  vals_Mg_mmol :: jsnum
  vals_Cl :: jsnum
  vals_Lac :: jsnum
  vals_HCO3 :: jsnum
  vals_albMinus :: jsnum
  vals_piMinus :: jsnum
  vals_sig :: jsnum

text \<open>A segment \<^verbatim>\<open>{ k, v, c }\<close>: key, value in mEq/L, colour.\<close>

record segment =
  k :: string
  v :: jsnum
  c :: string

definition cssColor :: "dom \<Rightarrow> string \<Rightarrow> string \<Rightarrow> string" where
  "cssColor d key fallback =
     (let name = (if key = ''Alb'' then ''Aminus'' else if key = ''Phos'' then ''Pi'' else key);
          varName = ''--gg-'' @ name;
          x = css d varName
      in if x = [] then fallback else x)"

text \<open>
  \<^verbatim>\<open>Array.prototype.sort(cmp)\<close> is a stable sort; \<open>a\<close> goes after \<open>b\<close> when \<open>cmp a b\<close> is
  positive, and a comparator result of \<open>NaN\<close> counts as zero. For a comparator that orders
  the elements consistently every such sort returns the same list; insertion sort stands
  for it here.
\<close>

fun insert_by :: "('a \<Rightarrow> 'a \<Rightarrow> jsnum) \<Rightarrow> 'a \<Rightarrow> 'a list \<Rightarrow> 'a list" where
  "insert_by cmp x [] = [x]"
| "insert_by cmp x (y # ys) =
     (if jgt (cmp x y) (Fin 0) then y # insert_by cmp x ys else x # y # ys)"

definition js_sort :: "('a \<Rightarrow> 'a \<Rightarrow> jsnum) \<Rightarrow> 'a list \<Rightarrow> 'a list" where
  "js_sort cmp xs = foldr (insert_by cmp) xs []"

text \<open>\<open>lift\<close>: sort large to small, keep \<^verbatim>\<open>"Unknown"\<close> on top (drawn last).\<close>

definition lift :: "segment list \<Rightarrow> segment list" where
  "lift arr =
     (let known = js_sort (\<lambda>a b. jsub (orz (v b)) (orz (v a)))
                    (filter (\<lambda>x. k x \<noteq> ''Unknown'') arr);
          unknown = filter (\<lambda>x. k x = ''Unknown'') arr
      in known @ unknown)"

text \<open>
  \<open>renderGamblegram\<close> up to the two lifted stacks, cations first; the geometry, the
  animation and the tooltips that follow in the source draw these stacks and are not part
  of the model. The function returns at once when one of its three elements is missing.
\<close>

definition renderGamblegram :: "dom \<Rightarrow> vals \<Rightarrow> (segment list \<times> segment list) option" where
  "renderGamblegram d vs =
     (if \<not> gg_elements d then None
      else
        let Na = orz (vals_Na vs);
            K = orz (vals_K vs);
            iCa = orz (vals_iCa vs);
            Mg_mmol = orz (vals_Mg_mmol vs);
            Cl = orz (vals_Cl vs);
            Lac = orz (vals_Lac vs);
            HCO3 = orz (vals_HCO3 vs);
            albMinus = orz (vals_albMinus vs);
            piMinus = orz (vals_piMinus vs);
            sig = orz (vals_sig vs);
            cations =
              [\<lparr>k = ''Na'', v = Na, c = cssColor d ''Na'' ''#BFE7FF''\<rparr>,
               \<lparr>k = ''K'', v = K, c = cssColor d ''K'' ''#FFE9C9''\<rparr>,
               \<lparr>k = ''iCa'', v = iCa, c = cssColor d ''iCa'' ''#DFF7ED''\<rparr>,
               \<lparr>k = ''Mg'', v = Mg_mmol, c = cssColor d ''Mg'' ''#E8E9FF''\<rparr>];
            anions =
              [\<lparr>k = ''Cl'', v = Cl, c = cssColor d ''Cl'' ''#FFD8DA''\<rparr>,
               \<lparr>k = ''Lactate'', v = Lac, c = cssColor d ''Lactate'' ''#FFF6D6''\<rparr>,
               \<lparr>k = ''HCO3'', v = HCO3, c = cssColor d ''HCO3'' ''#E9FFEA''\<rparr>,
               \<lparr>k = ''Alb'', v = albMinus, c = cssColor d ''Aminus'' ''#F0EAFF''\<rparr>,
               \<lparr>k = ''Phos'', v = piMinus, c = cssColor d ''Pi'' ''#FFF9DE''\<rparr>];
            UNKNOWN_CLR = cssColor d ''Unknown'' ''#B347FF'';
            anions1 = (if jgt sig (Fin 0.0001)
                       then anions @ [\<lparr>k = ''Unknown'', v = sig, c = UNKNOWN_CLR\<rparr>]
                       else anions);
            cations1 = (if jlt sig (Fin (- 0.0001))
                        then cations @ [\<lparr>k = ''Unknown'', v = Math_abs sig, c = UNKNOWN_CLR\<rparr>]
                        else cations)
        in Some (lift cations1, lift anions1))"

section \<open>compute.js: the calculation\<close>

text \<open>
  The values \<open>computeAll\<close> computes, under the names of its local constants; \<open>HCO3\<close> is
  the bicarbonate after the fall-back to the blood-gas value, and \<open>stacks\<close> is what the
  call of \<open>renderGamblegram\<close> builds. The strings written to the results panel are
  \<^verbatim>\<open>toFixed\<close> renderings of these values and are left out.
\<close>

record computed =
  hco3FromGas :: jsnum
  HCO3 :: jsnum
  sidA :: jsnum
  albMinus :: jsnum
  piMinus :: jsnum
  sidE :: jsnum
  sig :: jsnum
  ag :: jsnum
  sidAR :: jsnum
  sidER :: jsnum
  sigR :: jsnum
  ggHCO3 :: jsnum
  gg_vals :: vals
  stacks :: "(segment list \<times> segment list) option"

text \<open>
  When the box is not checked, the code writes \<^verbatim>\<open>hco3FromGas.toFixed(2)\<close> (or the empty
  string) into the \<^verbatim>\<open>hco3\<close> field and then parses the field again: \<open>d'\<close> is the page
  after that write.
\<close>

definition computeAll :: "dom \<Rightarrow> js_error + computed" where
  "computeAll d =
     (let Na = getIonSI d ''na'';
          K = getIonSI d ''k'';
          iCa = getIonSI d ''ica'';
          Mg = getIonSI d ''mg'';
          Cl = getIonSI d ''cl'';
          Lac = getIonSI d ''lac'';
          Alb = parse d ''alb'';
          Phos = getIonSI d ''phos'';
          pH = parse d ''ph'';
          pCO2 = parse d ''pco2'';
          hco3FromGas = (if isFinite pH \<and> isFinite pCO2
                         then Fin (hco3FromPHandPco2 (val pH) (val pCO2)) else NaN);
          d' = (if hco3El d \<and> \<not> use_bmp d
                then d\<lparr>field := (field d)(''hco3'' :=
                       (if isFinite hco3FromGas then Fin (toFixed2 (val hco3FromGas)) else NaN))\<rparr>
                else d);
          HCO3_field = parse d' ''hco3'';
          HCO3 = (if \<not> isFinite HCO3_field \<and> isFinite hco3FromGas
                  then hco3FromGas else HCO3_field);
          sidA = jsub (jsub (jadd (jadd (jadd (orz Na) (orz K)) (jmul (Fin 2) (orz iCa)))
                               (jmul (Fin 2) (orz Mg)))
                         (orz Cl))
                   (orz Lac);
          Alb_gL = (if isFinite Alb then jmul Alb (Fin 10) else NaN);
          albMinus = (if isFinite Alb_gL \<and> isFinite pH
                      then Fin (albuminCharge (val Alb_gL) (val pH)) else Fin 0);
          piMinus = (if isFinite Phos \<and> isFinite pH
                     then Fin (phosphateCharge (val Phos) (val pH)) else Fin 0);
          sidE = jadd (jadd (orz HCO3) albMinus) piMinus;
          sig = jsub sidA sidE;
          ag = jsub (jadd (orz Na) (orz K)) (jadd (orz Cl) (orz HCO3));
          sidAR = jdiv (Math_round (jmul sidA (Fin 10))) (Fin 10);
          sidER = jdiv (Math_round (jmul sidE (Fin 10))) (Fin 10);
          sigR = jdiv (Math_round (jmul sig (Fin 10))) (Fin 10)
      in
        if \<not> results_panel d then Inl TypeError
        else
          let bmpVal = parse d' ''hco3'';
              ggHCO3 = (if use_bmp d \<and> isFinite bmpVal then bmpVal
                        else if isFinite hco3FromGas then hco3FromGas
                        else orz HCO3);
              vs = \<lparr>vals_Na = Na, vals_K = K,
                    vals_iCa = jmul (Fin 2) (orz iCa),
                    vals_Mg_mmol = jmul (Fin 2) (if isFinite Mg then Mg else Fin 0),
                    vals_Cl = Cl, vals_Lac = Lac,
                    vals_HCO3 = ggHCO3,
                    vals_albMinus = albMinus, vals_piMinus = piMinus,
                    vals_sig = sigR\<rparr>
          in Inr \<lparr>hco3FromGas = hco3FromGas, HCO3 = HCO3, sidA = sidA,
                  albMinus = albMinus, piMinus = piMinus, sidE = sidE, sig = sig, ag = ag,
                  sidAR = sidAR, sidER = sidER, sigR = sigR, ggHCO3 = ggHCO3,
                  gg_vals = vs, stacks = renderGamblegram d vs\<rparr>)"

section \<open>Sample pages\<close>

text \<open>
  The scenario of the specification: Na 140, K 4, iCa 1.2, Mg 0.5, Cl 104, lactate 1,
  albumin 4.0 g/dL, phosphate 1, pH 7.40, pCO2 40, every unit selector on SI, the
  bicarbonate box unchecked, no custom colours.
\<close>

definition page0 :: dom where
  "page0 =
     \<lparr>field = (\<lambda>i. if i = ''na'' then Fin 140 else if i = ''k'' then Fin 4
                  else if i = ''ica'' then Fin 1.2 else if i = ''mg'' then Fin 0.5
                  else if i = ''cl'' then Fin 104 else if i = ''lac'' then Fin 1
                  else if i = ''alb'' then Fin 4 else if i = ''phos'' then Fin 1
                  else if i = ''ph'' then Fin 7.4 else if i = ''pco2'' then Fin 40
                  else NaN),
      unit_sel = (\<lambda>i. Some ''si''),
      use_bmp = False, hco3El = True, results_panel = True, gg_elements = True,
      css = (\<lambda>n. [])\<rparr>"


text \<open>
  A page with a measured bicarbonate of 24 typed in, the box checked, and no pH: the
  albumin and phosphate charges are then zero and every value is a decimal fraction.
\<close>

definition page_bmp :: dom where
  "page_bmp = page0\<lparr>field := (field page0)(''ph'' := NaN, ''hco3'' := Fin 24),
                    use_bmp := True\<rparr>"

text \<open>Values for a direct call of \<open>renderGamblegram\<close>, rounded from the scenario.\<close>

definition vals0 :: vals where
  "vals0 = \<lparr>vals_Na = Fin 140, vals_K = Fin 4, vals_iCa = Fin 2.4, vals_Mg_mmol = Fin 1,
            vals_Cl = Fin 104, vals_Lac = Fin 1, vals_HCO3 = Fin 23.94,
            vals_albMinus = Fin 11.15, vals_piMinus = Fin 1.85, vals_sig = Fin 5.5\<rparr>"

section \<open>Theorems\<close>

lemma powr10_pow: "0 < d \<Longrightarrow> (10 powr (real n / real d)) ^ d = (10::real) ^ n"
proof -
  assume d: "0 < d"
  have "(10 powr (real n / real d)) ^ d = 10 powr (real n / real d * real d)"
    by (simp add: powr_powr powr_realpow [symmetric])
  also have "\<dots> = 10 ^ n"
    using d by (simp add: powr_realpow)
  finally show ?thesis .
qed

subsection \<open>Readings are finite or absent\<close>

lemma orz_val: "x = NaN \<or> isFinite x \<Longrightarrow> orz x = Fin (val x)"
  by (cases x) (auto simp: orz_def)

lemma parse_range: "parse d i = NaN \<or> isFinite (parse d i)"
  by (simp add: parse_def Let_def)

lemma getIonSI_range: "getIonSI d i = NaN \<or> isFinite (getIonSI d i)"
proof (cases "parse d i")
  case (Fin r)
  then show ?thesis by (simp add: getIonSI_def Let_def)
next
  case NaN
  then show ?thesis by (simp add: getIonSI_def Let_def)
next
  case PInf
  then show ?thesis by (simp add: getIonSI_def Let_def)
next
  case NInf
  then show ?thesis by (simp add: getIonSI_def Let_def)
qed

lemma orz_parse: "orz (parse d i) = Fin (val (parse d i))"
  by (rule orz_val) (rule parse_range)

lemma orz_getIonSI: "orz (getIonSI d i) = Fin (val (getIonSI d i))"
  by (rule orz_val) (rule getIonSI_range)

subsection \<open>The values of \<open>computeAll\<close>, one by one\<close>

lemma computeAll_panel: "computeAll d = Inr out \<Longrightarrow> results_panel d"
  by (rule ccontr) (simp add: computeAll_def Let_def)

lemma computeAll_returns: "results_panel d \<Longrightarrow> \<exists>out. computeAll d = Inr out"
  unfolding computeAll_def Let_def
  by (simp only: simp_thms if_False sum.inject)

lemma computeAll_fields:
  assumes "computeAll d = Inr out"
  shows "sidE out = jadd (jadd (orz (HCO3 out)) (albMinus out)) (piMinus out)"
    and "sig out = jsub (sidA out) (sidE out)"
    and "sidAR out = jdiv (Math_round (jmul (sidA out) (Fin 10))) (Fin 10)"
    and "sidER out = jdiv (Math_round (jmul (sidE out) (Fin 10))) (Fin 10)"
    and "sigR out = jdiv (Math_round (jmul (sig out) (Fin 10))) (Fin 10)"
    and "stacks out = renderGamblegram d (gg_vals out)"
    and "ag out = jsub (jadd (orz (getIonSI d ''na'')) (orz (getIonSI d ''k'')))
                    (jadd (orz (getIonSI d ''cl'')) (orz (HCO3 out)))"
    and "sidA out =
           jsub (jsub (jadd (jadd (jadd (orz (getIonSI d ''na'')) (orz (getIonSI d ''k'')))
                               (jmul (Fin 2) (orz (getIonSI d ''ica''))))
                         (jmul (Fin 2) (orz (getIonSI d ''mg''))))
                   (orz (getIonSI d ''cl'')))
             (orz (getIonSI d ''lac''))"
    and "piMinus out =
           (if isFinite (getIonSI d ''phos'') \<and> isFinite (parse d ''ph'')
            then Fin (phosphateCharge (val (getIonSI d ''phos'')) (val (parse d ''ph'')))
            else Fin 0)"
    and "hco3FromGas out =
           (if isFinite (parse d ''ph'') \<and> isFinite (parse d ''pco2'')
            then Fin (hco3FromPHandPco2 (val (parse d ''ph'')) (val (parse d ''pco2'')))
            else NaN)"
    and "albMinus out =
           (if isFinite (parse d ''alb'') \<and> isFinite (parse d ''ph'')
            then Fin (albuminCharge (val (parse d ''alb'') * 10) (val (parse d ''ph'')))
            else Fin 0)"
proof -
  have rp: "results_panel d" using assms by (rule computeAll_panel)
  note sel = computed.select_convs vals.select_convs
  note u = assms rp
  show "sidE out = jadd (jadd (orz (HCO3 out)) (albMinus out)) (piMinus out)"
    using u unfolding computeAll_def Let_def
    by (clarsimp simp only: simp_thms if_False sum.inject sel)
  show "sig out = jsub (sidA out) (sidE out)"
    using u unfolding computeAll_def Let_def
    by (clarsimp simp only: simp_thms if_False sum.inject sel)
  show "sidAR out = jdiv (Math_round (jmul (sidA out) (Fin 10))) (Fin 10)"
    using u unfolding computeAll_def Let_def
    by (clarsimp simp only: simp_thms if_False sum.inject sel)
  show "sidER out = jdiv (Math_round (jmul (sidE out) (Fin 10))) (Fin 10)"
    using u unfolding computeAll_def Let_def
    by (clarsimp simp only: simp_thms if_False sum.inject sel)
  show "sigR out = jdiv (Math_round (jmul (sig out) (Fin 10))) (Fin 10)"
    using u unfolding computeAll_def Let_def
    by (clarsimp simp only: simp_thms if_False sum.inject sel)
  show "stacks out = renderGamblegram d (gg_vals out)"
    using u unfolding computeAll_def Let_def
    by (clarsimp simp only: simp_thms if_False sum.inject sel)
  show "ag out = jsub (jadd (orz (getIonSI d ''na'')) (orz (getIonSI d ''k'')))
                    (jadd (orz (getIonSI d ''cl'')) (orz (HCO3 out)))"
    using u unfolding computeAll_def Let_def
    by (clarsimp simp only: simp_thms if_False sum.inject sel)
  show "sidA out =
           jsub (jsub (jadd (jadd (jadd (orz (getIonSI d ''na'')) (orz (getIonSI d ''k'')))
                               (jmul (Fin 2) (orz (getIonSI d ''ica''))))
                         (jmul (Fin 2) (orz (getIonSI d ''mg''))))
                   (orz (getIonSI d ''cl'')))
             (orz (getIonSI d ''lac''))"
    using u unfolding computeAll_def Let_def
    by (clarsimp simp only: simp_thms if_False sum.inject sel)
  show "piMinus out =
           (if isFinite (getIonSI d ''phos'') \<and> isFinite (parse d ''ph'')
            then Fin (phosphateCharge (val (getIonSI d ''phos'')) (val (parse d ''ph'')))
            else Fin 0)"
    using u unfolding computeAll_def Let_def
    by (clarsimp simp only: simp_thms if_False sum.inject sel)
  show "hco3FromGas out =
           (if isFinite (parse d ''ph'') \<and> isFinite (parse d ''pco2'')
            then Fin (hco3FromPHandPco2 (val (parse d ''ph'')) (val (parse d ''pco2'')))
            else NaN)"
    using u unfolding computeAll_def Let_def
    by (clarsimp simp only: simp_thms if_False sum.inject sel)
  have alb: "albMinus out =
      (if isFinite (if isFinite (parse d ''alb'') then jmul (parse d ''alb'') (Fin 10) else NaN)
            \<and> isFinite (parse d ''ph'')
       then Fin (albuminCharge
              (val (if isFinite (parse d ''alb'') then jmul (parse d ''alb'') (Fin 10) else NaN))
              (val (parse d ''ph'')))
       else Fin 0)"
    using u unfolding computeAll_def Let_def
    by (clarsimp simp only: simp_thms if_False sum.inject sel)
  show "albMinus out =
           (if isFinite (parse d ''alb'') \<and> isFinite (parse d ''ph'')
            then Fin (albuminCharge (val (parse d ''alb'') * 10) (val (parse d ''ph'')))
            else Fin 0)"
    unfolding alb by (cases "parse d ''alb''") simp_all
qed

lemma computeAll_gg_vals:
  assumes "computeAll d = Inr out"
  shows "vals_sig (gg_vals out) = sigR out"
    and "vals_HCO3 (gg_vals out) = ggHCO3 out"
    and "vals_albMinus (gg_vals out) = albMinus out"
    and "vals_piMinus (gg_vals out) = piMinus out"
    and "vals_Na (gg_vals out) = getIonSI d ''na''"
    and "vals_K (gg_vals out) = getIonSI d ''k''"
    and "vals_Cl (gg_vals out) = getIonSI d ''cl''"
    and "vals_Lac (gg_vals out) = getIonSI d ''lac''"
    and "vals_iCa (gg_vals out) = jmul (Fin 2) (orz (getIonSI d ''ica''))"
    and "vals_Mg_mmol (gg_vals out) =
           jmul (Fin 2) (if isFinite (getIonSI d ''mg'') then getIonSI d ''mg'' else Fin 0)"
proof -
  have rp: "results_panel d" using assms by (rule computeAll_panel)
  note sel = computed.select_convs vals.select_convs
  note u = assms rp
  show "vals_sig (gg_vals out) = sigR out"
    using u unfolding computeAll_def Let_def
    by (clarsimp simp only: simp_thms if_False sum.inject sel)
  show "vals_HCO3 (gg_vals out) = ggHCO3 out"
    using u unfolding computeAll_def Let_def
    by (clarsimp simp only: simp_thms if_False sum.inject sel)
  show "vals_albMinus (gg_vals out) = albMinus out"
    using u unfolding computeAll_def Let_def
    by (clarsimp simp only: simp_thms if_False sum.inject sel)
  show "vals_piMinus (gg_vals out) = piMinus out"
    using u unfolding computeAll_def Let_def
    by (clarsimp simp only: simp_thms if_False sum.inject sel)
  show "vals_Na (gg_vals out) = getIonSI d ''na''"
    using u unfolding computeAll_def Let_def
    by (clarsimp simp only: simp_thms if_False sum.inject sel)
  show "vals_K (gg_vals out) = getIonSI d ''k''"
    using u unfolding computeAll_def Let_def
    by (clarsimp simp only: simp_thms if_False sum.inject sel)
  show "vals_Cl (gg_vals out) = getIonSI d ''cl''"
    using u unfolding computeAll_def Let_def
    by (clarsimp simp only: simp_thms if_False sum.inject sel)
  show "vals_Lac (gg_vals out) = getIonSI d ''lac''"
    using u unfolding computeAll_def Let_def
    by (clarsimp simp only: simp_thms if_False sum.inject sel)
  show "vals_iCa (gg_vals out) = jmul (Fin 2) (orz (getIonSI d ''ica''))"
    using u unfolding computeAll_def Let_def
    by (clarsimp simp only: simp_thms if_False sum.inject sel)
  show "vals_Mg_mmol (gg_vals out) =
           jmul (Fin 2) (if isFinite (getIonSI d ''mg'') then getIonSI d ''mg'' else Fin 0)"
    using u unfolding computeAll_def Let_def
    by (clarsimp simp only: simp_thms if_False sum.inject sel)
qed

text \<open>
  The bicarbonate: \<open>hf\<close> is what \<open>parse\<close> reads from the \<^verbatim>\<open>hco3\<close> field after the
  write.
\<close>

lemma computeAll_HCO3:
  assumes "computeAll d = Inr out"
  shows "\<exists>hf. (hf = NaN \<or> isFinite hf)
           \<and> HCO3 out = (if \<not> isFinite hf \<and> isFinite (hco3FromGas out)
                         then hco3FromGas out else hf)
           \<and> ggHCO3 out = (if use_bmp d \<and> isFinite hf then hf
                           else if isFinite (hco3FromGas out) then hco3FromGas out
                           else orz (HCO3 out))"
proof -
  have rp: "results_panel d" using assms by (rule computeAll_panel)
  note sel = computed.select_convs vals.select_convs
  show ?thesis
    using assms rp unfolding computeAll_def Let_def
    apply (clarsimp simp only: simp_thms if_False sum.inject sel)
    apply (rule exI)
    apply (intro conjI)
      apply (rule parse_range)
     apply (rule refl)
    apply (rule refl)
    done
qed

lemma computeAll_HCO3_range:
  assumes "computeAll d = Inr out"
  shows "HCO3 out = NaN \<or> isFinite (HCO3 out)"
proof -
  obtain hf where hf: "hf = NaN \<or> isFinite hf"
      and h: "HCO3 out = (if \<not> isFinite hf \<and> isFinite (hco3FromGas out)
                          then hco3FromGas out else hf)"
    using computeAll_HCO3 [OF assms] by blast
  show ?thesis
  proof (cases "\<not> isFinite hf \<and> isFinite (hco3FromGas out)")
    case True
    then show ?thesis using h by simp
  next
    case False
    then show ?thesis using h hf by auto
  qed
qed

lemma computeAll_sidA_val:
  assumes "computeAll d = Inr out"
  shows "sidA out = Fin (val (getIonSI d ''na'') + val (getIonSI d ''k'')
            + 2 * val (getIonSI d ''ica'') + 2 * val (getIonSI d ''mg'')
            - val (getIonSI d ''cl'') - val (getIonSI d ''lac''))"
  unfolding computeAll_fields(8) [OF assms]
  by (simp add: orz_getIonSI jsub_def)

lemma computeAll_sidE_val:
  assumes "computeAll d = Inr out"
  shows "sidE out = Fin (val (HCO3 out) + val (albMinus out) + val (piMinus out))"
proof -
  have h: "orz (HCO3 out) = Fin (val (HCO3 out))"
    by (rule orz_val) (rule computeAll_HCO3_range [OF assms])
  have a: "albMinus out = Fin (val (albMinus out))"
    unfolding computeAll_fields(11) [OF assms] by simp
  have p: "piMinus out = Fin (val (piMinus out))"
    unfolding computeAll_fields(9) [OF assms] by simp
  have "sidE out = jadd (jadd (Fin (val (HCO3 out))) (Fin (val (albMinus out))))
                     (Fin (val (piMinus out)))"
    using computeAll_fields(1) [OF assms] h a p by simp
  then show ?thesis by simp
qed

subsection \<open>The strong ion gap\<close>

text \<open>
  Claim C2. For every page on which \<open>computeAll\<close> returns, the strong ion gap it computes
  is the difference of the apparent and the effective strong ion difference, and the
  effective one is the sum of the bicarbonate used (zero when absent), the albumin charge
  and the phosphate charge. All three are finite numbers, so the identity is one between
  their real values as well.
\<close>

theorem sig_is_sidA_minus_sidE:
  assumes "computeAll d = Inr out"
  shows "sig out = jsub (sidA out) (sidE out)
       \<and> sidE out = jadd (jadd (orz (HCO3 out)) (albMinus out)) (piMinus out)
       \<and> isFinite (sidA out) \<and> isFinite (sidE out) \<and> isFinite (sig out)
       \<and> val (sig out) = val (sidA out) - val (sidE out)
       \<and> val (sidE out) = val (orz (HCO3 out)) + val (albMinus out) + val (piMinus out)"
proof -
  have h: "orz (HCO3 out) = Fin (val (HCO3 out))"
    by (rule orz_val) (rule computeAll_HCO3_range [OF assms])
  obtain a where a: "sidA out = Fin a"
    using computeAll_sidA_val [OF assms] by blast
  obtain e where e: "sidE out = Fin e"
    using computeAll_sidE_val [OF assms] by blast
  have s: "sig out = jsub (sidA out) (sidE out)"
    by (rule computeAll_fields(2) [OF assms])
  have "val (sidE out) = val (orz (HCO3 out)) + val (albMinus out) + val (piMinus out)"
    using computeAll_sidE_val [OF assms] h by simp
  then show ?thesis
    using s a e computeAll_fields(1) [OF assms] by (simp add: jsub_def)
qed

theorem sig_is_sidA_minus_sidE_witness:
  "\<exists>out. computeAll page0 = Inr out
       \<and> sig out = jsub (sidA out) (sidE out)
       \<and> sidE out = jadd (jadd (orz (HCO3 out)) (albMinus out)) (piMinus out)
       \<and> val (sig out) = val (sidA out) - val (sidE out)"
proof -
  have "results_panel page0" by (simp add: page0_def)
  then obtain out where o: "computeAll page0 = Inr out"
    using computeAll_returns by blast
  from sig_is_sidA_minus_sidE [OF o] o show ?thesis by blast
qed

subsection \<open>Unit conversion\<close>




subsection \<open>The albumin model\<close>

lemma inventory_charge_sum:
  "inventory_charge pH =
     fold (\<lambda>p his. his + 1 / (1 + 10 powr (pH - p))) HIS_STD
       (fold (\<lambda>p his. his + 1 / (1 + 10 powr (pH - (p - NB_shift pH)))) HIS_NB 0)
     + (2 / (1 + 10 powr (pH - 5.800))
      + 2 / (1 + 10 powr (pH - 6.150))
      + 2 / (1 + 10 powr (pH - 7.510))
      + 2 / (1 + 10 powr (pH - 7.685))
      + 1 / (1 + 10 powr (pH - 7.860))
      + 50 / (1 + 10 powr (pH - 10.30)))
     + 24 / (1 + 10 powr (pH - 12.5))
     + 1 / (1 + 10 powr (pH - 8.0))
     + - 1 / (1 + 10 powr (3.1 - pH))
     + - 98 / (1 + 10 powr (3.9 - pH))
     + - 1 / (1 + 10 powr (8.5 - pH))
     + - 18 / (1 + 10 powr (11.7 - pH))"
  by (simp add: inventory_charge_def basic_groups_def acidic_groups_def LYS_GROUPS_def
      HIS_NB_def HIS_STD_def)

lemma albuminCharge_inventory:
  "albuminCharge a pH = - (a / 66.5) * inventory_charge pH"
  unfolding inventory_charge_sum
  by (simp only: albuminCharge_def Let_def NB_shift_def)



subsection \<open>Comparisons and the sort\<close>

lemma orz_not_NaN: "orz x \<noteq> NaN"
  by (simp add: orz_def)






lemma cmp_positive:
  "a \<noteq> NaN \<Longrightarrow> b \<noteq> NaN \<Longrightarrow> jgt (jsub (orz b) (orz a)) (Fin 0) = jlt a b"
  by (cases a; cases b) (auto simp: orz_def jgt_def jsub_def)


lemma jlt_imp_jge: "jlt a b \<Longrightarrow> jge b a"
  by (cases a; cases b) (auto simp: jge_def)


lemma jge_trans: "jge a b \<Longrightarrow> jge b e \<Longrightarrow> jge a e"
  by (cases a; cases b; cases e) (auto simp: jge_def)

lemma set_insert_by: "set (insert_by cmp x ys) = insert x (set ys)"
  by (induction ys) auto


lemma set_js_sort: "set (js_sort cmp xs) = set xs"
  unfolding js_sort_def by (induction xs) (auto simp: set_insert_by)


lemma sorted_insert_by:
  assumes "\<forall>y\<in>set ys. v y \<noteq> NaN" "v x \<noteq> NaN"
    and "sorted_wrt (\<lambda>a b. jge (v a) (v b)) ys"
  shows "sorted_wrt (\<lambda>a b. jge (v a) (v b))
           (insert_by (\<lambda>a b. jsub (orz (v b)) (orz (v a))) x ys)"
  using assms
proof (induction ys)
  case Nil
  then show ?case by simp
next
  case (Cons y ys)
  have ih: "sorted_wrt (\<lambda>a b. jge (v a) (v b))
           (insert_by (\<lambda>a b. jsub (orz (v b)) (orz (v a))) x ys)"
    using Cons by simp
  have ny: "v y \<noteq> NaN" and nx: "v x \<noteq> NaN" using Cons.prems by simp_all
  have ys: "\<forall>z\<in>set ys. jge (v y) (v z)" using Cons.prems(3) by simp
  have s: "sorted_wrt (\<lambda>a b. jge (v a) (v b)) ys" using Cons.prems(3) by simp
  show ?case
  proof (cases "jlt (v x) (v y)")
    case True
    then have "jge (v y) (v x)" by (rule jlt_imp_jge)
    then have "\<forall>z\<in>set (insert_by (\<lambda>a b. jsub (orz (v b)) (orz (v a))) x ys). jge (v y) (v z)"
      using ys by (simp add: set_insert_by)
    then show ?thesis
      using True ih nx ny by (simp add: cmp_positive)
  next
    case False
    then have xy: "jge (v x) (v y)" using nx ny by (simp add: jge_def)
    have "\<forall>z\<in>set ys. jge (v x) (v z)"
      using ys xy by (blast intro: jge_trans)
    then show ?thesis
      using False xy s ys nx ny by (simp add: cmp_positive)
  qed
qed

lemma sorted_js_sort:
  assumes "\<forall>y\<in>set xs. v y \<noteq> NaN"
  shows "sorted_wrt (\<lambda>a b. jge (v a) (v b))
           (js_sort (\<lambda>a b. jsub (orz (v b)) (orz (v a))) xs)"
  using assms
proof (induction xs)
  case Nil
  then show ?case by (simp add: js_sort_def)
next
  case (Cons x xs)
  have e: "js_sort (\<lambda>a b. jsub (orz (v b)) (orz (v a))) (x # xs)
        = insert_by (\<lambda>a b. jsub (orz (v b)) (orz (v a))) x
            (js_sort (\<lambda>a b. jsub (orz (v b)) (orz (v a))) xs)"
    by (simp add: js_sort_def)
  show ?case
    unfolding e
  proof (rule sorted_insert_by)
    show "\<forall>y\<in>set (js_sort (\<lambda>a b. jsub (orz (v b)) (orz (v a))) xs). v y \<noteq> NaN"
      using Cons.prems by (simp add: set_js_sort)
    show "v x \<noteq> NaN" using Cons.prems by simp
    show "sorted_wrt (\<lambda>a b. jge (v a) (v b))
            (js_sort (\<lambda>a b. jsub (orz (v b)) (orz (v a))) xs)"
      using Cons by simp
  qed
qed



subsection \<open>\<open>lift\<close> and the stacks\<close>

lemma lift_append:
  "lift arr = js_sort (\<lambda>a b. jsub (orz (v b)) (orz (v a))) (filter (\<lambda>x. k x \<noteq> ''Unknown'') arr)
              @ filter (\<lambda>x. k x = ''Unknown'') arr"
  unfolding lift_def Let_def by (rule refl)


lemma filter_known_lift:
  "filter (\<lambda>x. k x \<noteq> ''Unknown'') (lift arr)
   = js_sort (\<lambda>a b. jsub (orz (v b)) (orz (v a))) (filter (\<lambda>x. k x \<noteq> ''Unknown'') arr)"
proof -
  have a: "filter (\<lambda>x. k x \<noteq> ''Unknown'')
               (js_sort (\<lambda>a b. jsub (orz (v b)) (orz (v a)))
                  (filter (\<lambda>x. k x \<noteq> ''Unknown'') arr))
             = js_sort (\<lambda>a b. jsub (orz (v b)) (orz (v a)))
                  (filter (\<lambda>x. k x \<noteq> ''Unknown'') arr)"
    by (rule filter_True) (simp add: set_js_sort)
  have b: "filter (\<lambda>x. k x \<noteq> ''Unknown'') (filter (\<lambda>x. k x = ''Unknown'') arr) = []"
    by (rule filter_False) simp
  show ?thesis
    unfolding lift_append filter_append a b by simp
qed


lemma filter_unknown_lift:
  "filter (\<lambda>x. k x = ''Unknown'') (lift arr) = filter (\<lambda>x. k x = ''Unknown'') arr"
proof -
  have a: "filter (\<lambda>x. k x = ''Unknown'')
               (js_sort (\<lambda>a b. jsub (orz (v b)) (orz (v a)))
                  (filter (\<lambda>x. k x \<noteq> ''Unknown'') arr)) = []"
    by (rule filter_False) (simp add: set_js_sort)
  have b: "filter (\<lambda>x. k x = ''Unknown'') (filter (\<lambda>x. k x = ''Unknown'') arr)
           = filter (\<lambda>x. k x = ''Unknown'') arr"
    by (rule filter_True) simp
  show ?thesis
    unfolding lift_append filter_append a b by simp
qed


lemma set_lift: "set (lift arr) = set arr"
  by (auto simp: lift_def Let_def set_js_sort)



lemma unknown_last_lift:
  assumes "length (filter (\<lambda>x. k x = ''Unknown'') arr) \<le> 1"
    and "i < length (lift arr)" "k (lift arr ! i) = ''Unknown''"
  shows "Suc i = length (lift arr)"
proof -
  define known where
    "known = js_sort (\<lambda>a b. jsub (orz (v b)) (orz (v a))) (filter (\<lambda>x. k x \<noteq> ''Unknown'') arr)"
  define unk where "unk = filter (\<lambda>x. k x = ''Unknown'') arr"
  have l: "lift arr = known @ unk"
    by (simp add: lift_def Let_def known_def unk_def)
  have kn: "\<forall>x\<in>set known. k x \<noteq> ''Unknown''"
    by (simp add: known_def set_js_sort)
  have "\<not> i < length known"
  proof
    assume "i < length known"
    then have "lift arr ! i \<in> set known" by (simp add: l nth_append)
    with kn assms(3) show False by blast
  qed
  moreover have "i < length known + length unk" using assms(2) l by simp
  moreover have "length unk \<le> 1" using assms(1) by (simp add: unk_def)
  ultimately show ?thesis by (simp add: l)
qed

lemma renderGamblegram_Some:
  assumes "renderGamblegram d vs = Some (cs, as)"
  shows "gg_elements d"
    and "cs = lift ([\<lparr>k = ''Na'', v = orz (vals_Na vs), c = cssColor d ''Na'' ''#BFE7FF''\<rparr>,
               \<lparr>k = ''K'', v = orz (vals_K vs), c = cssColor d ''K'' ''#FFE9C9''\<rparr>,
               \<lparr>k = ''iCa'', v = orz (vals_iCa vs), c = cssColor d ''iCa'' ''#DFF7ED''\<rparr>,
               \<lparr>k = ''Mg'', v = orz (vals_Mg_mmol vs), c = cssColor d ''Mg'' ''#E8E9FF''\<rparr>]
            @ (if jlt (orz (vals_sig vs)) (Fin (- 0.0001))
               then [\<lparr>k = ''Unknown'', v = Math_abs (orz (vals_sig vs)),
                      c = cssColor d ''Unknown'' ''#B347FF''\<rparr>]
               else []))"
    and "as = lift ([\<lparr>k = ''Cl'', v = orz (vals_Cl vs), c = cssColor d ''Cl'' ''#FFD8DA''\<rparr>,
               \<lparr>k = ''Lactate'', v = orz (vals_Lac vs), c = cssColor d ''Lactate'' ''#FFF6D6''\<rparr>,
               \<lparr>k = ''HCO3'', v = orz (vals_HCO3 vs), c = cssColor d ''HCO3'' ''#E9FFEA''\<rparr>,
               \<lparr>k = ''Alb'', v = orz (vals_albMinus vs), c = cssColor d ''Aminus'' ''#F0EAFF''\<rparr>,
               \<lparr>k = ''Phos'', v = orz (vals_piMinus vs), c = cssColor d ''Pi'' ''#FFF9DE''\<rparr>]
            @ (if jgt (orz (vals_sig vs)) (Fin 0.0001)
               then [\<lparr>k = ''Unknown'', v = orz (vals_sig vs),
                      c = cssColor d ''Unknown'' ''#B347FF''\<rparr>]
               else []))"
proof -
  show g: "gg_elements d"
  proof (rule ccontr)
    assume "\<not> gg_elements d"
    then have "renderGamblegram d vs = None"
      by (simp only: renderGamblegram_def simp_thms if_True)
    with assms show False by simp
  qed
  have ng: "(\<not> gg_elements d) = False" using g by simp
  show "cs = lift ([\<lparr>k = ''Na'', v = orz (vals_Na vs), c = cssColor d ''Na'' ''#BFE7FF''\<rparr>,
               \<lparr>k = ''K'', v = orz (vals_K vs), c = cssColor d ''K'' ''#FFE9C9''\<rparr>,
               \<lparr>k = ''iCa'', v = orz (vals_iCa vs), c = cssColor d ''iCa'' ''#DFF7ED''\<rparr>,
               \<lparr>k = ''Mg'', v = orz (vals_Mg_mmol vs), c = cssColor d ''Mg'' ''#E8E9FF''\<rparr>]
            @ (if jlt (orz (vals_sig vs)) (Fin (- 0.0001))
               then [\<lparr>k = ''Unknown'', v = Math_abs (orz (vals_sig vs)),
                      c = cssColor d ''Unknown'' ''#B347FF''\<rparr>]
               else []))"
    using assms unfolding renderGamblegram_def Let_def ng
    by (cases "jlt (orz (vals_sig vs)) (Fin (- 0.0001))")
       (simp_all only: simp_thms if_False if_True option.inject prod.inject append.simps)
  show "as = lift ([\<lparr>k = ''Cl'', v = orz (vals_Cl vs), c = cssColor d ''Cl'' ''#FFD8DA''\<rparr>,
               \<lparr>k = ''Lactate'', v = orz (vals_Lac vs), c = cssColor d ''Lactate'' ''#FFF6D6''\<rparr>,
               \<lparr>k = ''HCO3'', v = orz (vals_HCO3 vs), c = cssColor d ''HCO3'' ''#E9FFEA''\<rparr>,
               \<lparr>k = ''Alb'', v = orz (vals_albMinus vs), c = cssColor d ''Aminus'' ''#F0EAFF''\<rparr>,
               \<lparr>k = ''Phos'', v = orz (vals_piMinus vs), c = cssColor d ''Pi'' ''#FFF9DE''\<rparr>]
            @ (if jgt (orz (vals_sig vs)) (Fin 0.0001)
               then [\<lparr>k = ''Unknown'', v = orz (vals_sig vs),
                      c = cssColor d ''Unknown'' ''#B347FF''\<rparr>]
               else []))"
    using assms unfolding renderGamblegram_def Let_def ng
    by (cases "jgt (orz (vals_sig vs)) (Fin 0.0001)")
       (simp_all only: simp_thms if_False if_True option.inject prod.inject append.simps)
qed

lemma renderGamblegram_builds:
  "gg_elements d \<Longrightarrow> \<exists>cs as. renderGamblegram d vs = Some (cs, as)"
  unfolding renderGamblegram_def Let_def
  by (simp only: simp_thms if_False option.inject prod.inject ex_simps)


lemma render_vals0:
  "map_option (\<lambda>(cs, as). (map k cs, map k as)) (renderGamblegram page0 vals0)
   = Some ([''Na'', ''K'', ''iCa'', ''Mg''],
           [''Cl'', ''HCO3'', ''Alb'', ''Phos'', ''Lactate'', ''Unknown''])"
  by (simp add: renderGamblegram_def Let_def page0_def vals0_def lift_def js_sort_def
      orz_def jgt_def jsub_def)

text \<open>
  Claim C7. In both stacks that \<open>renderGamblegram\<close> builds, the segments other than
  \<^verbatim>\<open>Unknown\<close> are in descending order of value (each is \<^verbatim>\<open>>=\<close> every later one, so
  in particular the next one), and a segment with the key \<^verbatim>\<open>Unknown\<close> stands at the
  last position, whatever its value.
\<close>

theorem stacks_ordered:
  assumes "renderGamblegram d vs = Some (cs, as)"
  shows "sorted_wrt (\<lambda>a b. jge (v a) (v b)) (filter (\<lambda>s. k s \<noteq> ''Unknown'') cs)
       \<and> sorted_wrt (\<lambda>a b. jge (v a) (v b)) (filter (\<lambda>s. k s \<noteq> ''Unknown'') as)
       \<and> (\<forall>i<length cs. k (cs ! i) = ''Unknown'' \<longrightarrow> Suc i = length cs)
       \<and> (\<forall>i<length as. k (as ! i) = ''Unknown'' \<longrightarrow> Suc i = length as)"
proof -
  note r = renderGamblegram_Some [OF assms]
  have c1: "sorted_wrt (\<lambda>a b. jge (v a) (v b)) (filter (\<lambda>s. k s \<noteq> ''Unknown'') cs)"
    unfolding r(2) filter_known_lift
    by (rule sorted_js_sort) (simp add: orz_not_NaN)
  have a1: "sorted_wrt (\<lambda>a b. jge (v a) (v b)) (filter (\<lambda>s. k s \<noteq> ''Unknown'') as)"
    unfolding r(3) filter_known_lift
    by (rule sorted_js_sort) (simp add: orz_not_NaN)
  have c2: "\<forall>i<length cs. k (cs ! i) = ''Unknown'' \<longrightarrow> Suc i = length cs"
    unfolding r(2)
    by (intro allI impI, rule unknown_last_lift) simp_all
  have a2: "\<forall>i<length as. k (as ! i) = ''Unknown'' \<longrightarrow> Suc i = length as"
    unfolding r(3)
    by (intro allI impI, rule unknown_last_lift) simp_all
  from c1 a1 c2 a2 show ?thesis by blast
qed

theorem stacks_ordered_witness:
  "\<exists>cs as. renderGamblegram page0 vals0 = Some (cs, as)
     \<and> map k cs = [''Na'', ''K'', ''iCa'', ''Mg'']
     \<and> map k as = [''Cl'', ''HCO3'', ''Alb'', ''Phos'', ''Lactate'', ''Unknown'']
     \<and> sorted_wrt (\<lambda>a b. jge (v a) (v b)) (filter (\<lambda>s. k s \<noteq> ''Unknown'') cs)
     \<and> sorted_wrt (\<lambda>a b. jge (v a) (v b)) (filter (\<lambda>s. k s \<noteq> ''Unknown'') as)"
proof -
  obtain cs as where r: "renderGamblegram page0 vals0 = Some (cs, as)"
    using renderGamblegram_builds [of page0 vals0] by (auto simp: page0_def)
  have m: "map k cs = [''Na'', ''K'', ''iCa'', ''Mg'']"
    "map k as = [''Cl'', ''HCO3'', ''Alb'', ''Phos'', ''Lactate'', ''Unknown'']"
    using render_vals0 unfolding r by simp_all
  note so = stacks_ordered [OF r]
  have s1: "sorted_wrt (\<lambda>a b. jge (v a) (v b)) (filter (\<lambda>s. k s \<noteq> ''Unknown'') cs)"
    using so by (rule conjunct1)
  have s2: "sorted_wrt (\<lambda>a b. jge (v a) (v b)) (filter (\<lambda>s. k s \<noteq> ''Unknown'') as)"
    using so by (rule conjunct1 [OF conjunct2])
  show ?thesis
    by (rule exI [of _ cs], rule exI [of _ as]) (intro conjI r m s1 s2)
qed


subsection \<open>More values of \<open>computeAll\<close>\<close>

lemma computeAll_hco3_read:
  assumes "computeAll d = Inr out"
  shows "HCO3 out =
           (if \<not> isFinite (parse (if hco3El d \<and> \<not> use_bmp d
                    then d\<lparr>field := (field d)(''hco3'' :=
                           (if isFinite (hco3FromGas out)
                            then Fin (toFixed2 (val (hco3FromGas out))) else NaN))\<rparr>
                    else d) ''hco3'')
               \<and> isFinite (hco3FromGas out)
            then hco3FromGas out
            else parse (if hco3El d \<and> \<not> use_bmp d
                    then d\<lparr>field := (field d)(''hco3'' :=
                           (if isFinite (hco3FromGas out)
                            then Fin (toFixed2 (val (hco3FromGas out))) else NaN))\<rparr>
                    else d) ''hco3'')"
    and "ggHCO3 out =
           (if use_bmp d \<and> isFinite (parse (if hco3El d \<and> \<not> use_bmp d
                    then d\<lparr>field := (field d)(''hco3'' :=
                           (if isFinite (hco3FromGas out)
                            then Fin (toFixed2 (val (hco3FromGas out))) else NaN))\<rparr>
                    else d) ''hco3'')
            then parse (if hco3El d \<and> \<not> use_bmp d
                    then d\<lparr>field := (field d)(''hco3'' :=
                           (if isFinite (hco3FromGas out)
                            then Fin (toFixed2 (val (hco3FromGas out))) else NaN))\<rparr>
                    else d) ''hco3''
            else if isFinite (hco3FromGas out) then hco3FromGas out
            else orz (HCO3 out))"
proof -
  have rp: "results_panel d" using assms by (rule computeAll_panel)
  note sel = computed.select_convs vals.select_convs
  show "HCO3 out =
           (if \<not> isFinite (parse (if hco3El d \<and> \<not> use_bmp d
                    then d\<lparr>field := (field d)(''hco3'' :=
                           (if isFinite (hco3FromGas out)
                            then Fin (toFixed2 (val (hco3FromGas out))) else NaN))\<rparr>
                    else d) ''hco3'')
               \<and> isFinite (hco3FromGas out)
            then hco3FromGas out
            else parse (if hco3El d \<and> \<not> use_bmp d
                    then d\<lparr>field := (field d)(''hco3'' :=
                           (if isFinite (hco3FromGas out)
                            then Fin (toFixed2 (val (hco3FromGas out))) else NaN))\<rparr>
                    else d) ''hco3'')"
    using assms rp unfolding computeAll_def Let_def
    by (clarsimp simp only: simp_thms if_False sum.inject sel)
  show "ggHCO3 out =
           (if use_bmp d \<and> isFinite (parse (if hco3El d \<and> \<not> use_bmp d
                    then d\<lparr>field := (field d)(''hco3'' :=
                           (if isFinite (hco3FromGas out)
                            then Fin (toFixed2 (val (hco3FromGas out))) else NaN))\<rparr>
                    else d) ''hco3'')
            then parse (if hco3El d \<and> \<not> use_bmp d
                    then d\<lparr>field := (field d)(''hco3'' :=
                           (if isFinite (hco3FromGas out)
                            then Fin (toFixed2 (val (hco3FromGas out))) else NaN))\<rparr>
                    else d) ''hco3''
            else if isFinite (hco3FromGas out) then hco3FromGas out
            else orz (HCO3 out))"
    using assms rp unfolding computeAll_def Let_def
    by (clarsimp simp only: simp_thms if_False sum.inject sel)
qed


lemma computeAll_sig_val:
  assumes "computeAll d = Inr out"
  shows "sig out = Fin (val (sidA out) - val (sidE out))"
    and "sigR out = Fin (of_int \<lfloor>val (sig out) * 10 + 1 / 2\<rfloor> / 10)"
proof -
  show s: "sig out = Fin (val (sidA out) - val (sidE out))"
    unfolding computeAll_fields(2) [OF assms]
    by (simp add: computeAll_sidA_val [OF assms] computeAll_sidE_val [OF assms] jsub_def)
  show "sigR out = Fin (of_int \<lfloor>val (sig out) * 10 + 1 / 2\<rfloor> / 10)"
    unfolding computeAll_fields(5) [OF assms] s by simp
qed




lemma computeAll_divalent:
  assumes "computeAll d = Inr out"
  shows "vals_iCa (gg_vals out) = Fin (2 * val (getIonSI d ''ica''))"
    and "vals_Mg_mmol (gg_vals out) = Fin (2 * val (getIonSI d ''mg''))"
proof -
  show "vals_iCa (gg_vals out) = Fin (2 * val (getIonSI d ''ica''))"
    unfolding computeAll_gg_vals(9) [OF assms] by (simp add: orz_getIonSI)
  show "vals_Mg_mmol (gg_vals out) = Fin (2 * val (getIonSI d ''mg''))"
    unfolding computeAll_gg_vals(10) [OF assms]
    by (cases "getIonSI d ''mg''") simp_all
qed


lemma fields_page0:
  "getIonSI page0 ''na'' = Fin 140" "getIonSI page0 ''k'' = Fin 4"
  "getIonSI page0 ''ica'' = Fin 1.2" "getIonSI page0 ''mg'' = Fin 0.5"
  "getIonSI page0 ''cl'' = Fin 104" "getIonSI page0 ''lac'' = Fin 1"
  "getIonSI page0 ''phos'' = Fin 1" "parse page0 ''alb'' = Fin 4"
  "parse page0 ''ph'' = Fin 7.4" "parse page0 ''pco2'' = Fin 40"
  "results_panel page0" "gg_elements page0"
  by (simp_all add: page0_def getIonSI_def parse_def Let_def)


lemma fields_page_bmp:
  "getIonSI page_bmp ''na'' = Fin 140" "getIonSI page_bmp ''k'' = Fin 4"
  "getIonSI page_bmp ''ica'' = Fin 1.2" "getIonSI page_bmp ''mg'' = Fin 0.5"
  "getIonSI page_bmp ''cl'' = Fin 104" "getIonSI page_bmp ''lac'' = Fin 1"
  "getIonSI page_bmp ''phos'' = Fin 1" "parse page_bmp ''alb'' = Fin 4"
  "parse page_bmp ''ph'' = NaN" "parse page_bmp ''pco2'' = Fin 40"
  "parse page_bmp ''hco3'' = Fin 24"
  "use_bmp page_bmp" "results_panel page_bmp" "gg_elements page_bmp"
  by (simp_all add: page_bmp_def page0_def getIonSI_def parse_def Let_def)


lemma computeAll_page_bmp:
  assumes "computeAll page_bmp = Inr out"
  shows "sidA out = Fin 42.4" "HCO3 out = Fin 24" "sidE out = Fin 24"
    "sig out = Fin 18.4" "sigR out = Fin 18.4" "ag out = Fin 16"
proof -
  show a: "sidA out = Fin 42.4"
    unfolding computeAll_sidA_val [OF assms] by (simp add: fields_page_bmp)
  have g: "hco3FromGas out = NaN"
    unfolding computeAll_fields(10) [OF assms] by (simp add: fields_page_bmp)
  show h: "HCO3 out = Fin 24"
    unfolding computeAll_hco3_read(1) [OF assms] g by (simp add: fields_page_bmp)
  have al: "albMinus out = Fin 0" "piMinus out = Fin 0"
    unfolding computeAll_fields(11) [OF assms] computeAll_fields(9) [OF assms]
    by (simp_all add: fields_page_bmp)
  show e: "sidE out = Fin 24"
    unfolding computeAll_fields(1) [OF assms] h al by (simp add: orz_def)
  show s: "sig out = Fin 18.4"
    unfolding computeAll_fields(2) [OF assms] a e by (simp add: jsub_def)
  show "sigR out = Fin 18.4"
    unfolding computeAll_fields(5) [OF assms] s by simp
  show "ag out = Fin 16"
    unfolding computeAll_fields(7) [OF assms] h
    by (simp add: fields_page_bmp orz_def jsub_def)
qed





subsection \<open>The Unknown segment\<close>

text \<open>
  Claim C6. The value passed to the stack builder is \<open>sigR\<close>, the strong ion gap rounded
  to one decimal. The anion stack holds exactly one \<^verbatim>\<open>Unknown\<close> segment, of value
  \<open>sigR\<close>, when \<open>sigR > 0.0001\<close> and none otherwise; the cation stack holds exactly one,
  of value \<open>|sigR|\<close>, when \<open>sigR < -0.0001\<close> and none otherwise; with \<open>sigR\<close> in
  \<open>[-0.0001, 0.0001]\<close> neither stack has an \<^verbatim>\<open>Unknown\<close> segment.
\<close>

theorem unknown_segment:
  assumes "computeAll d = Inr out" "stacks out = Some (cs, as)"
  shows "sigR out = jdiv (Math_round (jmul (sig out) (Fin 10))) (Fin 10)
       \<and> filter (\<lambda>s. k s = ''Unknown'') as
           = (if jgt (sigR out) (Fin 0.0001)
              then [\<lparr>k = ''Unknown'', v = sigR out, c = cssColor d ''Unknown'' ''#B347FF''\<rparr>]
              else [])
       \<and> filter (\<lambda>s. k s = ''Unknown'') cs
           = (if jlt (sigR out) (Fin (- 0.0001))
              then [\<lparr>k = ''Unknown'', v = Math_abs (sigR out),
                     c = cssColor d ''Unknown'' ''#B347FF''\<rparr>]
              else [])
       \<and> (jge (sigR out) (Fin (- 0.0001)) \<and> jge (Fin 0.0001) (sigR out)
            \<longrightarrow> (\<forall>s\<in>set (cs @ as). k s \<noteq> ''Unknown''))"
proof -
  have r: "renderGamblegram d (gg_vals out) = Some (cs, as)"
    using assms(2) computeAll_fields(6) [OF assms(1)] by simp
  obtain x where x: "sigR out = Fin x"
    using computeAll_sig_val(2) [OF assms(1)] by blast
  have o: "orz (vals_sig (gg_vals out)) = sigR out"
    unfolding computeAll_gg_vals(1) [OF assms(1)] x by (simp add: orz_def)
  note rs = renderGamblegram_Some [OF r]
  have a: "filter (\<lambda>s. k s = ''Unknown'') as
           = (if jgt (sigR out) (Fin 0.0001)
              then [\<lparr>k = ''Unknown'', v = sigR out, c = cssColor d ''Unknown'' ''#B347FF''\<rparr>]
              else [])"
    unfolding rs(3) filter_unknown_lift o by simp
  have b: "filter (\<lambda>s. k s = ''Unknown'') cs
           = (if jlt (sigR out) (Fin (- 0.0001))
              then [\<lparr>k = ''Unknown'', v = Math_abs (sigR out),
                     c = cssColor d ''Unknown'' ''#B347FF''\<rparr>]
              else [])"
    unfolding rs(2) filter_unknown_lift o by simp
  have n: "\<forall>s\<in>set (cs @ as). k s \<noteq> ''Unknown''"
    if "jge (sigR out) (Fin (- 0.0001))" "jge (Fin 0.0001) (sigR out)"
  proof -
    from that have "\<not> jgt (sigR out) (Fin 0.0001)" "\<not> jlt (sigR out) (Fin (- 0.0001))"
      by (simp_all add: jge_def jgt_def)
    with a b have "filter (\<lambda>s. k s = ''Unknown'') (cs @ as) = []" by simp
    then show ?thesis by (simp only: filter_empty_conv)
  qed
  from a b n computeAll_fields(5) [OF assms(1)] show ?thesis by blast
qed


theorem unknown_segment_witness:
  "\<exists>out cs as. computeAll page_bmp = Inr out \<and> stacks out = Some (cs, as)
       \<and> sigR out = Fin 18.4
       \<and> filter (\<lambda>s. k s = ''Unknown'') as
           = [\<lparr>k = ''Unknown'', v = Fin 18.4, c = ''#B347FF''\<rparr>]
       \<and> filter (\<lambda>s. k s = ''Unknown'') cs = []"
proof -
  obtain out where o: "computeAll page_bmp = Inr out"
    using computeAll_returns [of page_bmp] fields_page_bmp by blast
  obtain cs as where s: "stacks out = Some (cs, as)"
    using renderGamblegram_builds [of page_bmp "gg_vals out"] fields_page_bmp
      computeAll_fields(6) [OF o] by auto
  have c: "cssColor page_bmp ''Unknown'' ''#B347FF'' = ''#B347FF''"
    by (simp add: cssColor_def page_bmp_def page0_def)
  from unknown_segment [OF o s] computeAll_page_bmp(5) [OF o] c
  have "filter (\<lambda>s. k s = ''Unknown'') as = [\<lparr>k = ''Unknown'', v = Fin 18.4, c = ''#B347FF''\<rparr>]
      \<and> filter (\<lambda>s. k s = ''Unknown'') cs = []"
    by (simp add: jgt_def)
  with o s computeAll_page_bmp(5) [OF o] show ?thesis by blast
qed


subsection \<open>The apparent strong ion difference\<close>

text \<open>
  Claim C1. \<open>computeAll\<close> computes SIDa as Na + K + 2 iCa + 2 Mg - Cl - Lactate from the
  SI readings (an absent reading counting as 0). The factor 2 on the two divalent cations
  is applied in \<open>computeAll\<close> and nowhere else: the values it hands to
  \<open>renderGamblegram\<close> are 2 iCa and 2 Mg, and the iCa and Mg segments of the cation stack
  carry exactly these values, not doubled again; the formula library takes neither ion.
\<close>

theorem sidA_formula:
  assumes "computeAll d = Inr out"
  shows "sidA out = Fin (val (getIonSI d ''na'') + val (getIonSI d ''k'')
            + 2 * val (getIonSI d ''ica'') + 2 * val (getIonSI d ''mg'')
            - val (getIonSI d ''cl'') - val (getIonSI d ''lac''))
       \<and> vals_iCa (gg_vals out) = Fin (2 * val (getIonSI d ''ica''))
       \<and> vals_Mg_mmol (gg_vals out) = Fin (2 * val (getIonSI d ''mg''))
       \<and> (\<forall>cs as. stacks out = Some (cs, as) \<longrightarrow>
            (\<forall>s\<in>set (cs @ as).
                (k s = ''iCa'' \<longrightarrow> v s = Fin (2 * val (getIonSI d ''ica'')))
              \<and> (k s = ''Mg'' \<longrightarrow> v s = Fin (2 * val (getIonSI d ''mg''))))
            \<and> (\<exists>s\<in>set cs. k s = ''iCa'') \<and> (\<exists>s\<in>set cs. k s = ''Mg''))"
proof -
  note dv = computeAll_divalent [OF assms]
  have st: "(\<forall>s\<in>set (cs @ as).
                (k s = ''iCa'' \<longrightarrow> v s = Fin (2 * val (getIonSI d ''ica'')))
              \<and> (k s = ''Mg'' \<longrightarrow> v s = Fin (2 * val (getIonSI d ''mg''))))
            \<and> (\<exists>s\<in>set cs. k s = ''iCa'') \<and> (\<exists>s\<in>set cs. k s = ''Mg'')"
    if "stacks out = Some (cs, as)" for cs as
  proof -
    have r: "renderGamblegram d (gg_vals out) = Some (cs, as)"
      using that computeAll_fields(6) [OF assms] by simp
    note rs = renderGamblegram_Some [OF r]
    show ?thesis
      unfolding set_append rs(2) rs(3) set_lift dv
      by (auto simp: orz_def)
  qed
  from computeAll_sidA_val [OF assms] dv st show ?thesis by blast
qed

theorem sidA_formula_witness:
  "\<exists>out. computeAll page0 = Inr out \<and> sidA out = Fin 42.4
      \<and> vals_iCa (gg_vals out) = Fin 2.4 \<and> vals_Mg_mmol (gg_vals out) = Fin 1"
proof -
  obtain out where o: "computeAll page0 = Inr out"
    using computeAll_returns [of page0] fields_page0 by blast
  from sidA_formula [OF o] o show ?thesis
    by (simp add: fields_page0)
qed


subsection \<open>Readings that are not finite\<close>






subsection \<open>Enclosures of powers of ten\<close>

text \<open>
  The reference values need \<open>10 powr e\<close> for decimal exponents \<open>e\<close>. Every exponent that
  occurs is a multiple of 1/200, so \<open>10 powr e\<close> is a product of powers of the three roots
  \<open>10 powr (1/10)\<close>, \<open>10 powr (1/100)\<close> and \<open>10 powr (1/200)\<close>, each enclosed between two
  decimals by comparing integer powers.
\<close>

lemma root_enclose:
  fixes x :: real
  assumes "0 < n" "0 \<le> lo" "0 \<le> hi" "0 < xl" "xl \<le> x" "x \<le> xu"
    and "lo ^ n \<le> xl" "xu \<le> hi ^ n"
  shows "lo \<le> x powr (1 / real n) \<and> x powr (1 / real n) \<le> hi"
proof -
  have x: "0 < x" using assms by linarith
  have y: "0 < x powr (1 / real n)" using x by simp
  have "(x powr (1 / real n)) ^ n = (x powr (1 / real n)) powr real n"
    using y by (simp only: powr_realpow)
  also have "\<dots> = x powr (1 / real n * real n)" by (rule powr_powr)
  also have "\<dots> = x" using assms(1) x by simp
  finally have p: "(x powr (1 / real n)) ^ n = x" .
  have "lo \<le> x powr (1 / real n)"
  proof (rule ccontr)
    assume "\<not> lo \<le> x powr (1 / real n)"
    then have "(x powr (1 / real n)) ^ n < lo ^ n"
      using assms(1) by (intro power_strict_mono) auto
    with p assms show False by linarith
  qed
  moreover have "x powr (1 / real n) \<le> hi"
  proof (rule ccontr)
    assume "\<not> x powr (1 / real n) \<le> hi"
    then have "hi ^ n < (x powr (1 / real n)) ^ n"
      using assms(1,3) by (intro power_strict_mono) auto
    with p assms show False by linarith
  qed
  ultimately show ?thesis by blast
qed

lemma unit1: "(1.2589254::real) \<le> 10 powr (1 / 10) \<and> (10::real) powr (1 / 10) \<le> 1.2589255"
  using root_enclose [of 10 "1.2589254" "1.2589255" 10 10 10]
  by (simp add: power_divide)

lemma unit2: "(1.02329299::real) \<le> 10 powr (1 / 100) \<and> (10::real) powr (1 / 100) \<le> 1.023293"
proof -
  have e: "(10::real) powr (1 / 100) = (10 powr (1 / 10)) powr (1 / real 10)"
    by (simp add: powr_powr)
  have a: "(1.02329299::real) ^ 10 \<le> 1.2589254" by (simp add: power_divide)
  have b: "(1.2589255::real) \<le> 1.023293 ^ 10" by (simp add: power_divide)
  show ?thesis
    unfolding e
    by (rule root_enclose [where xl = "1.2589254" and xu = "1.2589255"])
       (use unit1 a b in simp_all)
qed

lemma unit3: "(1.01157945::real) \<le> 10 powr (1 / 200) \<and> (10::real) powr (1 / 200) \<le> 1.01157946"
proof -
  have e: "(10::real) powr (1 / 200) = (10 powr (1 / 100)) powr (1 / real 2)"
    by (simp add: powr_powr)
  have a: "(1.01157945::real) ^ 2 \<le> 1.02329299" by (simp add: power_divide)
  have b: "(1.023293::real) \<le> 1.01157946 ^ 2" by (simp add: power_divide)
  show ?thesis
    unfolding e
    by (rule root_enclose [where xl = "1.02329299" and xu = "1.023293"])
       (use unit2 a b in simp_all)
qed

lemma powr10_decomp:
  "(10::real) powr (real m + real i / 10 + real j / 100 + real h / 200)
   = 10 ^ m * (10 powr (1 / 10)) ^ i * (10 powr (1 / 100)) ^ j * (10 powr (1 / 200)) ^ h"
proof -
  have a: "((10::real) powr (1 / 10)) ^ i = 10 powr (real i / 10)"
    by (simp add: powr_realpow [symmetric] powr_powr)
  have b: "((10::real) powr (1 / 100)) ^ j = 10 powr (real j / 100)"
    by (simp add: powr_realpow [symmetric] powr_powr)
  have d: "((10::real) powr (1 / 200)) ^ h = 10 powr (real h / 200)"
    by (simp add: powr_realpow [symmetric] powr_powr)
  have m: "(10::real) ^ m = 10 powr real m"
    by (simp add: powr_realpow)
  show ?thesis unfolding a b d m by (simp add: powr_add)
qed

lemma powr10_enclose:
  assumes "e = real m + real i / 10 + real j / 100 + real h / 200"
  shows "10 ^ m * 1.2589254 ^ i * 1.02329299 ^ j * 1.01157945 ^ h \<le> (10::real) powr e"
    and "(10::real) powr e \<le> 10 ^ m * 1.2589255 ^ i * 1.023293 ^ j * 1.01157946 ^ h"
proof -
  have e: "(10::real) powr e
      = 10 ^ m * (10 powr (1 / 10)) ^ i * (10 powr (1 / 100)) ^ j * (10 powr (1 / 200)) ^ h"
    unfolding assms by (rule powr10_decomp)
  have i1: "(1.2589254::real) ^ i \<le> (10 powr (1 / 10)) ^ i"
    and i2: "((10::real) powr (1 / 10)) ^ i \<le> 1.2589255 ^ i"
    using unit1 by (simp_all add: power_mono)
  have j1: "(1.02329299::real) ^ j \<le> (10 powr (1 / 100)) ^ j"
    and j2: "((10::real) powr (1 / 100)) ^ j \<le> 1.023293 ^ j"
    using unit2 by (simp_all add: power_mono)
  have h1: "(1.01157945::real) ^ h \<le> (10 powr (1 / 200)) ^ h"
    and h2: "((10::real) powr (1 / 200)) ^ h \<le> 1.01157946 ^ h"
    using unit3 by (simp_all add: power_mono)
  show "10 ^ m * 1.2589254 ^ i * 1.02329299 ^ j * 1.01157945 ^ h \<le> (10::real) powr e"
    unfolding e by (intro mult_mono i1 j1 h1 order_refl mult_nonneg_nonneg zero_le_power) simp_all
  show "(10::real) powr e \<le> 10 ^ m * 1.2589255 ^ i * 1.023293 ^ j * 1.01157946 ^ h"
    unfolding e by (intro mult_mono i2 j2 h2 order_refl mult_nonneg_nonneg zero_le_power) simp_all
qed

lemma frac_range:
  fixes q :: real
  assumes "el \<le> e" "e \<le> eu"
    and "el = real m + real i / 10 + real j / 100 + real h / 200"
    and "eu = real m' + real i' / 10 + real j' / 100 + real h' / 200"
    and "0 \<le> lb" "0 \<le> ub"
    and "lb * (1 + 10 ^ m' * 1.2589255 ^ i' * 1.023293 ^ j' * 1.01157946 ^ h') \<le> q"
    and "q \<le> ub * (1 + 10 ^ m * 1.2589254 ^ i * 1.02329299 ^ j * 1.01157945 ^ h)"
  shows "lb \<le> q / (1 + 10 powr e) \<and> q / (1 + 10 powr e) \<le> ub"
proof -
  define P :: real where "P = 10 powr e"
  have lo: "10 ^ m * 1.2589254 ^ i * 1.02329299 ^ j * 1.01157945 ^ h \<le> P"
  proof -
    have "(10::real) powr el \<le> 10 powr e" using assms(1) by simp
    with powr10_enclose(1) [OF assms(3)] show ?thesis
      unfolding P_def by (rule order_trans)
  qed
  have hi: "P \<le> 10 ^ m' * 1.2589255 ^ i' * 1.023293 ^ j' * 1.01157946 ^ h'"
  proof -
    have "(10::real) powr e \<le> 10 powr eu" using assms(2) by simp
    then show ?thesis
      unfolding P_def using powr10_enclose(2) [OF assms(4)] by (rule order_trans)
  qed
  have P: "0 < P" unfolding P_def by simp
  have "lb * (1 + P) \<le> lb * (1 + 10 ^ m' * 1.2589255 ^ i' * 1.023293 ^ j' * 1.01157946 ^ h')"
    using hi assms(5) by (intro mult_left_mono) simp_all
  with assms(7) have a: "lb * (1 + P) \<le> q" by linarith
  have "ub * (1 + 10 ^ m * 1.2589254 ^ i * 1.02329299 ^ j * 1.01157945 ^ h) \<le> ub * (1 + P)"
    using lo assms(6) by (intro mult_left_mono) simp_all
  with assms(8) have b: "q \<le> ub * (1 + P)" by linarith
  from a b P have "lb \<le> q / (1 + P) \<and> q / (1 + P) \<le> ub"
    by (simp add: field_simps)
  then show ?thesis unfolding P_def .
qed

lemma frac_pos:
  fixes q :: real
  assumes "e = real m + real i / 10 + real j / 100 + real h / 200"
    and "0 \<le> lb" "0 \<le> ub"
    and "lb * (1 + 10 ^ m * 1.2589255 ^ i * 1.023293 ^ j * 1.01157946 ^ h) \<le> q"
    and "q \<le> ub * (1 + 10 ^ m * 1.2589254 ^ i * 1.02329299 ^ j * 1.01157945 ^ h)"
  shows "lb \<le> q / (1 + 10 powr e) \<and> q / (1 + 10 powr e) \<le> ub"
  by (rule frac_range [OF order_refl order_refl assms(1) assms(1) assms(2-5)])

lemma frac_neg:
  fixes q :: real
  assumes "e = - (real m + real i / 10 + real j / 100 + real h / 200)"
    and "lb \<le> q" "ub \<le> q"
    and "lb \<le> (q - lb) * (10 ^ m * 1.2589254 ^ i * 1.02329299 ^ j * 1.01157945 ^ h)"
    and "(q - ub) * (10 ^ m * 1.2589255 ^ i * 1.023293 ^ j * 1.01157946 ^ h) \<le> ub"
  shows "lb \<le> q / (1 + 10 powr e) \<and> q / (1 + 10 powr e) \<le> ub"
proof -
  define P :: real where "P = 10 powr (- e)"
  have me: "- e = real m + real i / 10 + real j / 100 + real h / 200"
    using assms(1) by simp
  have lo: "10 ^ m * 1.2589254 ^ i * 1.02329299 ^ j * 1.01157945 ^ h \<le> P"
    using powr10_enclose(1) [OF me] unfolding P_def .
  have hi: "P \<le> 10 ^ m * 1.2589255 ^ i * 1.023293 ^ j * 1.01157946 ^ h"
    using powr10_enclose(2) [OF me] unfolding P_def .
  have P: "0 < P" unfolding P_def by simp
  have inv: "10 powr e = 1 / P"
    unfolding P_def by (simp add: powr_minus field_simps)
  have "(q - lb) * (10 ^ m * 1.2589254 ^ i * 1.02329299 ^ j * 1.01157945 ^ h) \<le> (q - lb) * P"
    using lo assms(2) by (intro mult_left_mono) simp_all
  with assms(4) have a: "lb \<le> (q - lb) * P" by linarith
  have "(q - ub) * P \<le> (q - ub) * (10 ^ m * 1.2589255 ^ i * 1.023293 ^ j * 1.01157946 ^ h)"
    using hi assms(3) by (intro mult_left_mono) simp_all
  with assms(5) have b: "(q - ub) * P \<le> ub" by linarith
  have "q / (1 + 1 / P) = q * P / (P + 1)"
    using P by (simp add: field_simps)
  moreover have "lb \<le> q * P / (P + 1)"
    using a P by (simp add: field_simps)
  moreover have "q * P / (P + 1) \<le> ub"
    using b P by (simp add: field_simps)
  ultimately show ?thesis unfolding inv by simp
qed

subsection \<open>The albumin charge at 40 g/L and pH 7.40\<close>

lemma NB_shift_bounds: "(3 / 10::real) \<le> NB_shift 7.4 \<and> NB_shift 7.4 \<le> (61 / 200::real)"
proof -
  define x :: real where "x = 1 / (1 + 10 powr (7.4 - 6.9))"
  have "(24 / 100::real) \<le> 1 / (1 + 10 powr (7.4 - 6.9))
      \<and> 1 / (1 + 10 powr (7.4 - 6.9)) \<le> (481 / 2000::real)"
    by (rule frac_pos [where m = 0 and i = 5 and j = 0 and h = 0]) (simp_all add: power_divide)
  then have x: "24 / 100 \<le> x" "x \<le> 481 / 2000" unfolding x_def by simp_all
  have "NB_shift 7.4 = 0.4 * (1 - x)" unfolding NB_shift_def x_def by simp
  with x show ?thesis by simp
qed

lemma his_nb_1:
  "(4127 / 20000::real) \<le> 1 / (1 + 10 powr (7.4 - (7.12 - NB_shift 7.4)))
   \<and> 1 / (1 + 10 powr (7.4 - (7.12 - NB_shift 7.4))) \<le> (10413 / 50000::real)"
  by (rule frac_range [where el = "0.58" and eu = "0.585" and m = 0 and i = 5 and j = 8 and h = 0 and m' = 0 and i' = 5 and j' = 8 and h' = 1])
     (use NB_shift_bounds in \<open>simp_all add: power_divide\<close>)

lemma his_nb_2:
  "(24661 / 100000::real) \<le> 1 / (1 + 10 powr (7.4 - (7.22 - NB_shift 7.4)))
   \<and> 1 / (1 + 10 powr (7.4 - (7.22 - NB_shift 7.4))) \<le> (6219 / 25000::real)"
  by (rule frac_range [where el = "0.48" and eu = "0.485" and m = 0 and i = 4 and j = 8 and h = 0 and m' = 0 and i' = 4 and j' = 8 and h' = 1])
     (use NB_shift_bounds in \<open>simp_all add: power_divide\<close>)

lemma his_nb_3:
  "(19891 / 100000::real) \<le> 1 / (1 + 10 powr (7.4 - (7.10 - NB_shift 7.4)))
   \<and> 1 / (1 + 10 powr (7.4 - (7.10 - NB_shift 7.4))) \<le> (20077 / 100000::real)"
  by (rule frac_range [where el = "0.6" and eu = "0.605" and m = 0 and i = 6 and j = 0 and h = 0 and m' = 0 and i' = 6 and j' = 0 and h' = 1])
     (use NB_shift_bounds in \<open>simp_all add: power_divide\<close>)

lemma his_nb_4:
  "(3787 / 10000::real) \<le> 1 / (1 + 10 powr (7.4 - (7.49 - NB_shift 7.4)))
   \<and> 1 / (1 + 10 powr (7.4 - (7.49 - NB_shift 7.4))) \<le> (19071 / 50000::real)"
  by (rule frac_range [where el = "0.21" and eu = "0.215" and m = 0 and i = 2 and j = 1 and h = 0 and m' = 0 and i' = 2 and j' = 1 and h' = 1])
     (use NB_shift_bounds in \<open>simp_all add: power_divide\<close>)

lemma his_nb_5:
  "(8397 / 50000::real) \<le> 1 / (1 + 10 powr (7.4 - (7.01 - NB_shift 7.4)))
   \<and> 1 / (1 + 10 powr (7.4 - (7.01 - NB_shift 7.4))) \<le> (4239 / 25000::real)"
  by (rule frac_range [where el = "0.69" and eu = "0.695" and m = 0 and i = 6 and j = 9 and h = 0 and m' = 0 and i' = 6 and j' = 9 and h' = 1])
     (use NB_shift_bounds in \<open>simp_all add: power_divide\<close>)

lemma his_std_6:
  "(44837 / 100000::real) \<le> 1 / (1 + 10 powr (7.4 - 7.31))
   \<and> 1 / (1 + 10 powr (7.4 - 7.31)) \<le> (22419 / 50000::real)"
  by (rule frac_pos [where m = 0 and i = 0 and j = 9 and h = 0]) (simp_all add: power_divide)

lemma his_std_7:
  "(4573 / 25000::real) \<le> 1 / (1 + 10 powr (7.4 - 6.75))
   \<and> 1 / (1 + 10 powr (7.4 - 6.75)) \<le> (18293 / 100000::real)"
  by (rule frac_pos [where m = 0 and i = 6 and j = 5 and h = 0]) (simp_all add: power_divide)

lemma his_std_8:
  "(8357 / 100000::real) \<le> 1 / (1 + 10 powr (7.4 - 6.36))
   \<and> 1 / (1 + 10 powr (7.4 - 6.36)) \<le> (4179 / 50000::real)"
  by (rule frac_pos [where m = 1 and i = 0 and j = 4 and h = 0]) (simp_all add: power_divide)

lemma his_std_9:
  "(281 / 100000::real) \<le> 1 / (1 + 10 powr (7.4 - 4.85))
   \<and> 1 / (1 + 10 powr (7.4 - 4.85)) \<le> (141 / 50000::real)"
  by (rule frac_pos [where m = 2 and i = 5 and j = 5 and h = 0]) (simp_all add: power_divide)

lemma his_std_10:
  "(2239 / 100000::real) \<le> 1 / (1 + 10 powr (7.4 - 5.76))
   \<and> 1 / (1 + 10 powr (7.4 - 5.76)) \<le> (14 / 625::real)"
  by (rule frac_pos [where m = 1 and i = 6 and j = 4 and h = 0]) (simp_all add: power_divide)

lemma his_std_11:
  "(139 / 2500::real) \<le> 1 / (1 + 10 powr (7.4 - 6.17))
   \<and> 1 / (1 + 10 powr (7.4 - 6.17)) \<le> (5561 / 100000::real)"
  by (rule frac_pos [where m = 1 and i = 2 and j = 3 and h = 0]) (simp_all add: power_divide)

lemma his_std_12:
  "(17613 / 100000::real) \<le> 1 / (1 + 10 powr (7.4 - 6.73))
   \<and> 1 / (1 + 10 powr (7.4 - 6.73)) \<le> (8807 / 50000::real)"
  by (rule frac_pos [where m = 0 and i = 6 and j = 7 and h = 0]) (simp_all add: power_divide)

lemma his_std_13:
  "(1281 / 50000::real) \<le> 1 / (1 + 10 powr (7.4 - 5.82))
   \<and> 1 / (1 + 10 powr (7.4 - 5.82)) \<le> (2563 / 100000::real)"
  by (rule frac_pos [where m = 1 and i = 5 and j = 8 and h = 0]) (simp_all add: power_divide)

lemma his_std_14:
  "(249 / 50000::real) \<le> 1 / (1 + 10 powr (7.4 - 5.10))
   \<and> 1 / (1 + 10 powr (7.4 - 5.10)) \<le> (499 / 100000::real)"
  by (rule frac_pos [where m = 2 and i = 3 and j = 0 and h = 0]) (simp_all add: power_divide)

lemma his_std_15:
  "(16633 / 100000::real) \<le> 1 / (1 + 10 powr (7.4 - 6.70))
   \<and> 1 / (1 + 10 powr (7.4 - 6.70)) \<le> (8317 / 50000::real)"
  by (rule frac_pos [where m = 0 and i = 7 and j = 0 and h = 0]) (simp_all add: power_divide)

lemma his_std_16:
  "(1187 / 20000::real) \<le> 1 / (1 + 10 powr (7.4 - 6.20))
   \<and> 1 / (1 + 10 powr (7.4 - 6.20)) \<le> (371 / 6250::real)"
  by (rule frac_pos [where m = 1 and i = 2 and j = 0 and h = 0]) (simp_all add: power_divide)

lemma lys_1:
  "(49 / 1000::real) \<le> 2 / (1 + 10 powr (7.4 - 5.800))
   \<and> 2 / (1 + 10 powr (7.4 - 5.800)) \<le> (4901 / 100000::real)"
  by (rule frac_pos [where m = 1 and i = 6 and j = 0 and h = 0]) (simp_all add: power_divide)

lemma lys_2:
  "(1331 / 12500::real) \<le> 2 / (1 + 10 powr (7.4 - 6.150))
   \<and> 2 / (1 + 10 powr (7.4 - 6.150)) \<le> (10649 / 100000::real)"
  by (rule frac_pos [where m = 1 and i = 2 and j = 5 and h = 0]) (simp_all add: power_divide)

lemma lys_3:
  "(28149 / 25000::real) \<le> 2 / (1 + 10 powr (7.4 - 7.510))
   \<and> 2 / (1 + 10 powr (7.4 - 7.510)) \<le> (112597 / 100000::real)"
  by (rule frac_neg [where m = 0 and i = 1 and j = 1 and h = 0]) (simp_all add: power_divide)

lemma lys_4:
  "(65841 / 50000::real) \<le> 2 / (1 + 10 powr (7.4 - 7.685))
   \<and> 2 / (1 + 10 powr (7.4 - 7.685)) \<le> (131683 / 100000::real)"
  by (rule frac_neg [where m = 0 and i = 2 and j = 8 and h = 1]) (simp_all add: power_divide)

lemma lys_5:
  "(74253 / 100000::real) \<le> 1 / (1 + 10 powr (7.4 - 7.860))
   \<and> 1 / (1 + 10 powr (7.4 - 7.860)) \<le> (37127 / 50000::real)"
  by (rule frac_neg [where m = 0 and i = 4 and j = 6 and h = 0]) (simp_all add: power_divide)

lemma lys_6:
  "(4993713 / 100000::real) \<le> 50 / (1 + 10 powr (7.4 - 10.30))
   \<and> 50 / (1 + 10 powr (7.4 - 10.30)) \<le> (2496857 / 50000::real)"
  by (rule frac_neg [where m = 2 and i = 9 and j = 0 and h = 0]) (simp_all add: power_divide)

lemma basic_arg:
  "(119999 / 5000::real) \<le> 24 / (1 + 10 powr (7.4 - 12.5))
   \<and> 24 / (1 + 10 powr (7.4 - 12.5)) \<le> (2399981 / 100000::real)"
  by (rule frac_neg [where m = 5 and i = 1 and j = 0 and h = 0]) (simp_all add: power_divide)

lemma basic_nh2:
  "(79923 / 100000::real) \<le> 1 / (1 + 10 powr (7.4 - 8.0))
   \<and> 1 / (1 + 10 powr (7.4 - 8.0)) \<le> (3197 / 4000::real)"
  by (rule frac_neg [where m = 0 and i = 6 and j = 0 and h = 0]) (simp_all add: power_divide)

lemma acid_acooh:
  "(49997 / 50000::real) \<le> 1 / (1 + 10 powr (3.1 - 7.4))
   \<and> 1 / (1 + 10 powr (3.1 - 7.4)) \<le> (19999 / 20000::real)"
  by (rule frac_neg [where m = 4 and i = 3 and j = 0 and h = 0]) (simp_all add: power_divide)

lemma acid_aspGlu:
  "(9796901 / 100000::real) \<le> 98 / (1 + 10 powr (3.9 - 7.4))
   \<and> 98 / (1 + 10 powr (3.9 - 7.4)) \<le> (4898451 / 50000::real)"
  by (rule frac_neg [where m = 3 and i = 5 and j = 0 and h = 0]) (simp_all add: power_divide)

lemma acid_cys:
  "(3679 / 50000::real) \<le> 1 / (1 + 10 powr (8.5 - 7.4))
   \<and> 1 / (1 + 10 powr (8.5 - 7.4)) \<le> (7359 / 100000::real)"
  by (rule frac_pos [where m = 1 and i = 1 and j = 0 and h = 0]) (simp_all add: power_divide)

lemma acid_tyr:
  "(9 / 10000::real) \<le> 18 / (1 + 10 powr (11.7 - 7.4))
   \<and> 18 / (1 + 10 powr (11.7 - 7.4)) \<le> (91 / 100000::real)"
  by (rule frac_pos [where m = 4 and i = 3 and j = 0 and h = 0]) (simp_all add: power_divide)

lemma inventory_charge_at_740:
  "inventory_charge 7.4 =
     (1 / (1 + 10 powr (7.4 - (7.12 - NB_shift 7.4)))
      + 1 / (1 + 10 powr (7.4 - (7.22 - NB_shift 7.4)))
      + 1 / (1 + 10 powr (7.4 - (7.10 - NB_shift 7.4)))
      + 1 / (1 + 10 powr (7.4 - (7.49 - NB_shift 7.4)))
      + 1 / (1 + 10 powr (7.4 - (7.01 - NB_shift 7.4)))
      + 1 / (1 + 10 powr (7.4 - 7.31))
      + 1 / (1 + 10 powr (7.4 - 6.75))
      + 1 / (1 + 10 powr (7.4 - 6.36))
      + 1 / (1 + 10 powr (7.4 - 4.85))
      + 1 / (1 + 10 powr (7.4 - 5.76))
      + 1 / (1 + 10 powr (7.4 - 6.17))
      + 1 / (1 + 10 powr (7.4 - 6.73))
      + 1 / (1 + 10 powr (7.4 - 5.82))
      + 1 / (1 + 10 powr (7.4 - 5.10))
      + 1 / (1 + 10 powr (7.4 - 6.70))
      + 1 / (1 + 10 powr (7.4 - 6.20))
      + 2 / (1 + 10 powr (7.4 - 5.800))
      + 2 / (1 + 10 powr (7.4 - 6.150))
      + 2 / (1 + 10 powr (7.4 - 7.510))
      + 2 / (1 + 10 powr (7.4 - 7.685))
      + 1 / (1 + 10 powr (7.4 - 7.860))
      + 50 / (1 + 10 powr (7.4 - 10.30))
      + 24 / (1 + 10 powr (7.4 - 12.5))
      + 1 / (1 + 10 powr (7.4 - 8.0)))
     - (1 / (1 + 10 powr (3.1 - 7.4))
      + 98 / (1 + 10 powr (3.9 - 7.4))
      + 1 / (1 + 10 powr (8.5 - 7.4))
      + 18 / (1 + 10 powr (11.7 - 7.4)))"
  by (simp add: inventory_charge_def basic_groups_def acidic_groups_def LYS_GROUPS_def
      HIS_NB_def HIS_STD_def)

lemma inventory_charge_bounds:
  "(-927 / 50::real) \<le> inventory_charge 7.4 \<and> inventory_charge 7.4 \<le> (-92647 / 5000::real)"
  unfolding inventory_charge_at_740
  using his_nb_1
    his_nb_2
    his_nb_3
    his_nb_4
    his_nb_5
    his_std_6
    his_std_7
    his_std_8
    his_std_9
    his_std_10
    his_std_11
    his_std_12
    his_std_13
    his_std_14
    his_std_15
    his_std_16
    lys_1
    lys_2
    lys_3
    lys_4
    lys_5
    lys_6
    basic_arg
    basic_nh2
    acid_acooh
    acid_aspGlu
    acid_cys
    acid_tyr
  by linarith

lemma albuminCharge_at_40_740:
  "\<bar>albuminCharge 40 7.4 - 11.15\<bar> \<le> 0.05"
proof -
  define I where "I = inventory_charge 7.4"
  have e: "albuminCharge 40 7.4 = - (40 / 66.5) * I"
    unfolding I_def by (rule albuminCharge_inventory)
  have "- (927 / 50) \<le> I" "I \<le> - (92647 / 5000)"
    using inventory_charge_bounds unfolding I_def by simp_all
  then have "\<bar>- (80 / 133) * I - 223 / 20\<bar> \<le> 1 / 20" by linarith
  then show ?thesis unfolding e by simp
qed

text \<open>
  Claim C4. \<open>albuminCharge\<close> is the residue inventory of the specification scaled by
  \<open>-(albumin / 66.5)\<close>: 16 histidines, of which 5 have their pKa lowered by \<open>NB(pH)\<close>;
  59 lysines in 6 groups; 24 arginines and 1 amino terminus (100 basic residues in all);
  and the acidic groups 1 carboxyl terminus, 98 Asp + Glu, 1 cysteine, 18 tyrosines. The
  counts and the four acidic and two basic pKa are the specification's; the individual
  histidine and lysine pKa are those of the source's tables. At 40 g/L and pH 7.40 the
  charge is within 0.05 of 11.15 mEq/L.
\<close>

theorem albuminCharge_figge_fencl:
  "albuminCharge a pH = - (a / 66.5) * inventory_charge pH
   \<and> length HIS_NB = 5 \<and> length (HIS_NB @ HIS_STD) = 16
   \<and> length LYS_GROUPS = 6 \<and> sum_list (map fst LYS_GROUPS) = 59
   \<and> sum_list (map fst (basic_groups pH)) = 16 + 59 + 24 + 1
   \<and> map fst acidic_groups = [1, 98, 1, 18]
   \<and> \<bar>albuminCharge 40 7.4 - 11.15\<bar> \<le> 0.05"
proof -
  have "sum_list (map fst (basic_groups pH)) = 16 + 59 + 24 + 1"
    by (simp add: basic_groups_def HIS_NB_def HIS_STD_def LYS_GROUPS_def o_def)
  then show ?thesis
    using albuminCharge_at_40_740 albuminCharge_inventory [of a pH]
    by (simp add: HIS_NB_def HIS_STD_def LYS_GROUPS_def acidic_groups_def)
qed

subsection \<open>The bicarbonate at pH 7.40 and pCO2 40\<close>

lemma hco3_at_740_40:
  "(23943 / 1000::real) \<le> hco3FromPHandPco2 7.4 40
   \<and> hco3FromPHandPco2 7.4 40 \<le> (23944 / 1000::real)"
proof -
  define P :: real where "P = 10 powr (7.4 - 6.1)"
  have e: "(7.4 - 6.1::real) = real 1 + real 3 / 10 + real 0 / 100 + real 0 / 200"
    by simp
  have "(199526 / 10000::real) \<le> 10 ^ 1 * 1.2589254 ^ 3 * 1.02329299 ^ 0 * 1.01157945 ^ 0"
    by (simp add: power_divide)
  with powr10_enclose(1) [OF e] have lo: "199526 / 10000 \<le> P"
    unfolding P_def by linarith
  have "10 ^ 1 * 1.2589255 ^ 3 * 1.023293 ^ 0 * 1.01157946 ^ 0 \<le> (199527 / 10000::real)"
    by (simp add: power_divide)
  with powr10_enclose(2) [OF e] have hi: "P \<le> 199527 / 10000"
    unfolding P_def by linarith
  have "hco3FromPHandPco2 7.4 40 = (12 / 10) * P"
    unfolding hco3FromPHandPco2_def P_def by simp
  with lo hi show ?thesis by simp
qed

text \<open>
  Claim C3, as the code has it. \<open>hco3FromPHandPco2\<close> computes
  \<open>0.03 * pCO2 * 10^(pH - 6.1)\<close>; at pH 7.40 and pCO2 40 this is \<open>0.03 * 40 * 10^1.3\<close>,
  which is within 0.01 of 23.94.
\<close>

theorem hco3_formula_and_value:
  "hco3FromPHandPco2 pH pCO2 = 0.03 * pCO2 * 10 powr (pH - 6.1)
   \<and> hco3FromPHandPco2 7.4 40 = 0.03 * 40 * 10 powr 1.3
   \<and> \<bar>hco3FromPHandPco2 7.4 40 - 23.94\<bar> \<le> 0.01"
proof -
  have "\<bar>hco3FromPHandPco2 7.4 40 - 2394 / 100\<bar> \<le> 1 / 100"
    using hco3_at_740_40 by linarith
  then have "\<bar>hco3FromPHandPco2 7.4 40 - 23.94\<bar> \<le> 0.01" by simp
  moreover have "hco3FromPHandPco2 7.4 40 = 0.03 * 40 * 10 powr 1.3"
    by (simp add: hco3FromPHandPco2_def)
  ultimately show ?thesis by (simp add: hco3FromPHandPco2_def)
qed

text \<open>The value is not within 0.01 of 23.97, the number the claim gives.\<close>

theorem hco3_value_counterexample:
  "\<not> \<bar>hco3FromPHandPco2 7.4 40 - 23.97\<bar> \<le> 0.01"
proof -
  have "\<not> \<bar>hco3FromPHandPco2 7.4 40 - 2397 / 100\<bar> \<le> 1 / 100"
    using hco3_at_740_40 by linarith
  then show ?thesis by simp
qed

subsection \<open>The phosphate charge at 1 mmol/L and pH 7.40\<close>

lemma phosphateCharge_ratio:
  fixes pH :: real
  defines "r \<equiv> 10 powr (pH - 6.66)"
    and "s \<equiv> 10 powr (pH - 11.78)"
    and "t \<equiv> 10 powr (1.915 - pH)"
  shows "phosphateCharge phos pH = phos * ((1 + 2 * r + 3 * r * s) / (t + 1 + r + r * s))"
proof -
  define K1 :: real where "K1 = 10 powr (- 1.915)"
  define K2 :: real where "K2 = 10 powr (- 6.66)"
  define K3 :: real where "K3 = 10 powr (- 11.78)"
  define H :: real where "H = 10 powr (- pH)"
  have pos: "0 < K1" "0 < K2" "0 < K3" "0 < H"
    unfolding K1_def K2_def K3_def H_def by simp_all
  have r: "K2 = r * H" unfolding K2_def r_def H_def by (simp add: powr_add [symmetric])
  have s: "K3 = s * H" unfolding K3_def s_def H_def by (simp add: powr_add [symmetric])
  have t: "H = t * K1" unfolding K1_def t_def H_def by (simp add: powr_add [symmetric])
  have n: "K1 * H * H + 2 * K1 * K2 * H + 3 * K1 * K2 * K3
           = (K1 * H * H) * (1 + 2 * r + 3 * r * s)"
    unfolding r s by (simp add: algebra_simps)
  have d: "H * H * H + K1 * H * H + K1 * K2 * H + K1 * K2 * K3
           = (K1 * H * H) * (t + 1 + r + r * s)"
  proof -
    have "H * H * H = (K1 * H * H) * t" using t by (simp add: algebra_simps)
    then show ?thesis unfolding r s by (simp add: algebra_simps)
  qed
  have k: "K1 * H * H \<noteq> 0" using pos by simp
  have "phosphateCharge phos pH
        = phos * ((K1 * H * H + 2 * K1 * K2 * H + 3 * K1 * K2 * K3)
                  / (H * H * H + K1 * H * H + K1 * K2 * H + K1 * K2 * K3))"
    unfolding phosphateCharge_def Let_def K1_def K2_def K3_def H_def by (rule refl)
  also have "\<dots> = phos * ((1 + 2 * r + 3 * r * s) / (t + 1 + r + r * s))"
    unfolding n d using k by simp
  finally show ?thesis .
qed

lemma phosphateCharge_at_1_740:
  "(1845 / 1000::real) \<le> phosphateCharge 1 7.4 \<and> phosphateCharge 1 7.4 \<le> (1847 / 1000::real)"
proof -
  define r :: real where "r = 10 powr (7.4 - 6.66)"
  define s :: real where "s = 10 powr (7.4 - 11.78)"
  define t :: real where "t = 10 powr (1.915 - 7.4)"
  have er: "(7.4 - 6.66::real) = real 0 + real 7 / 10 + real 4 / 100 + real 0 / 200"
    by simp
  have "(54954 / 10000::real) \<le> 10 ^ 0 * 1.2589254 ^ 7 * 1.02329299 ^ 4 * 1.01157945 ^ 0"
    by (simp add: power_divide)
  with powr10_enclose(1) [OF er] have rl: "54954 / 10000 \<le> r" unfolding r_def by linarith
  have "10 ^ 0 * 1.2589255 ^ 7 * 1.023293 ^ 4 * 1.01157946 ^ 0 \<le> (54955 / 10000::real)"
    by (simp add: power_divide)
  with powr10_enclose(2) [OF er] have ru: "r \<le> 54955 / 10000" unfolding r_def by linarith
  have s0: "0 < s" and t0: "0 < t" unfolding s_def t_def by simp_all
  have "s \<le> 10 powr 0" unfolding s_def by (intro powr_mono) simp_all
  then have su: "s \<le> 1" by simp
  have "t \<le> 10 powr 0" unfolding t_def by (intro powr_mono) simp_all
  then have tu: "t \<le> 1" by simp
  have "s \<le> 10 powr (- 4)" unfolding s_def by (intro powr_mono) simp_all
  also have "(10::real) powr (- 4) = 1 / 10000" by (simp add: powr_minus_divide)
  finally have s4: "s \<le> 1 / 10000" .
  have "t \<le> 10 powr (- 5)" unfolding t_def by (intro powr_mono) simp_all
  also have "(10::real) powr (- 5) = 1 / 100000" by (simp add: powr_minus_divide)
  finally have t5: "t \<le> 1 / 100000" .
  define w where "w = r * s"
  have w0: "0 \<le> w" unfolding w_def using s0 rl by simp
  have "r * s \<le> (54955 / 10000) * (1 / 10000)"
    using ru s4 s0 rl by (intro mult_mono) simp_all
  then have wu: "w \<le> 55 / 100000" unfolding w_def by simp
  have den: "0 < t + 1 + r + w" using t0 rl w0 by linarith
  have z: "phosphateCharge 1 7.4 = (1 + 2 * r + 3 * w) / (t + 1 + r + w)"
    using phosphateCharge_ratio [of 1 "7.4"] unfolding r_def s_def t_def w_def
    by (simp add: mult.assoc)
  have "1845 * (t + 1 + r + w) \<le> 1000 * (1 + 2 * r + 3 * w)"
    using rl w0 t5 by (simp add: algebra_simps)
  then have a: "1845 / 1000 \<le> (1 + 2 * r + 3 * w) / (t + 1 + r + w)"
    using den by (simp add: field_simps)
  have "1000 * (1 + 2 * r + 3 * w) \<le> 1847 * (t + 1 + r + w)"
    using ru wu t0 by (simp add: algebra_simps)
  then have b: "(1 + 2 * r + 3 * w) / (t + 1 + r + w) \<le> 1847 / 1000"
    using den by (simp add: field_simps)
  from a b show ?thesis unfolding z by blast
qed

text \<open>
  Claim C5. \<open>phosphateCharge\<close> is the phosphate concentration times the mean charge
  \<open>z = (K1 H^2 + 2 K1 K2 H + 3 K1 K2 K3) / (H^3 + K1 H^2 + K1 K2 H + K1 K2 K3)\<close> with
  \<open>H = 10^-pH\<close> and the pKa 1.915, 6.66 and 11.78; at 1 mmol/L and pH 7.40 it is within 0.03
  of 1.85 mEq/L.
\<close>

theorem phosphateCharge_triprotic:
  "phosphateCharge phos pH =
     (let H = 10 powr (- pH); K1 = 10 powr (- 1.915); K2 = 10 powr (- 6.66);
          K3 = 10 powr (- 11.78)
      in phos * ((K1 * H\<^sup>2 + 2 * K1 * K2 * H + 3 * K1 * K2 * K3)
                 / (H ^ 3 + K1 * H\<^sup>2 + K1 * K2 * H + K1 * K2 * K3)))
   \<and> \<bar>phosphateCharge 1 7.4 - 1.85\<bar> \<le> 0.03"
proof -
  have "\<bar>phosphateCharge 1 7.4 - 185 / 100\<bar> \<le> 3 / 100"
    using phosphateCharge_at_1_740 by linarith
  then have "\<bar>phosphateCharge 1 7.4 - 1.85\<bar> \<le> 0.03" by simp
  moreover have "phosphateCharge phos pH =
     (let H = 10 powr (- pH); K1 = 10 powr (- 1.915); K2 = 10 powr (- 6.66);
          K3 = 10 powr (- 11.78)
      in phos * ((K1 * H\<^sup>2 + 2 * K1 * K2 * H + 3 * K1 * K2 * K3)
                 / (H ^ 3 + K1 * H\<^sup>2 + K1 * K2 * H + K1 * K2 * K3)))"
    unfolding phosphateCharge_def Let_def power2_eq_square power3_eq_cube
    by (simp only: mult.assoc)
  ultimately show ?thesis by blast
qed

section \<open>The default page\<close>

lemma albuminCharge_at_40_740_tight:
  "(111455 / 10000::real) \<le> albuminCharge 40 7.4 \<and> albuminCharge 40 7.4 \<le> (111519 / 10000::real)"
proof -
  define I where "I = inventory_charge 7.4"
  have e: "albuminCharge 40 7.4 = - (80 / 133) * I"
    unfolding I_def albuminCharge_inventory by simp
  have "- (927 / 50) \<le> I" "I \<le> - (92647 / 5000)"
    using inventory_charge_bounds unfolding I_def by simp_all
  then show ?thesis unfolding e by simp
qed

text \<open>
  The default page, end to end: pH 7.40 and pCO2 40 give the bicarbonate 23.943..., which
  is written to the bicarbonate field with two decimals and read back as 23.94; the
  rounded strong ion differences shown are 42.4 and 36.9, and the rounded gap is 5.5.
\<close>

lemma toFixed2_hco3: "toFixed2 (hco3FromPHandPco2 7.4 40) = 23.94"
proof -
  define h where "h = hco3FromPHandPco2 7.4 40"
  have b: "23943 / 1000 \<le> h" "h \<le> 23944 / 1000"
    using hco3_at_740_40 unfolding h_def by simp_all
  have f: "\<lfloor>\<bar>h\<bar> * 100 + 1 / 2\<rfloor> = 2394"
    using b by (simp add: floor_unique)
  have "\<not> 10 ^ 21 \<le> \<bar>h\<bar>" using b by simp
  moreover have "sgn h = 1" using b by simp
  ultimately show ?thesis unfolding toFixed2_def h_def [symmetric] f by simp
qed

lemma computeAll_page0:
  assumes "computeAll page0 = Inr out"
  shows "sidA out = Fin 42.4" "sidAR out = Fin 42.4"
    "hco3FromGas out = Fin (hco3FromPHandPco2 7.4 40)" "HCO3 out = Fin 23.94"
    "albMinus out = Fin (albuminCharge 40 7.4)" "piMinus out = Fin (phosphateCharge 1 7.4)"
    "sidE out = Fin (23.94 + albuminCharge 40 7.4 + phosphateCharge 1 7.4)"
    "sidER out = Fin 36.9" "sigR out = Fin 5.5" "ag out = Fin 16.06"
proof -
  define A where "A = albuminCharge 40 7.4"
  define P where "P = phosphateCharge 1 7.4"
  have A: "111455 / 10000 \<le> A" "A \<le> 111519 / 10000"
    using albuminCharge_at_40_740_tight unfolding A_def by simp_all
  have P: "1845 / 1000 \<le> P" "P \<le> 1847 / 1000"
    using phosphateCharge_at_1_740 unfolding P_def by simp_all
  show a: "sidA out = Fin 42.4"
    unfolding computeAll_sidA_val [OF assms] by (simp add: fields_page0)
  show "sidAR out = Fin 42.4"
    unfolding computeAll_fields(3) [OF assms] a by simp
  show g: "hco3FromGas out = Fin (hco3FromPHandPco2 7.4 40)"
    unfolding computeAll_fields(10) [OF assms] by (simp add: fields_page0)
  have u: "hco3El page0 \<and> \<not> use_bmp page0" by (simp add: page0_def)
  show h: "HCO3 out = Fin 23.94"
    unfolding computeAll_hco3_read(1) [OF assms] g using u toFixed2_hco3
    by (simp add: parse_def)
  show al: "albMinus out = Fin (albuminCharge 40 7.4)"
    unfolding computeAll_fields(11) [OF assms] by (simp add: fields_page0)
  show pi: "piMinus out = Fin (phosphateCharge 1 7.4)"
    unfolding computeAll_fields(9) [OF assms] by (simp add: fields_page0)
  show e: "sidE out = Fin (23.94 + albuminCharge 40 7.4 + phosphateCharge 1 7.4)"
    unfolding computeAll_fields(1) [OF assms] h al pi by (simp add: orz_def)
  have fe: "\<lfloor>(23.94 + A + P) * 10 + 1 / 2\<rfloor> = 369"
    using A P by (simp add: floor_unique)
  show "sidER out = Fin 36.9"
    unfolding computeAll_fields(4) [OF assms] e A_def [symmetric] P_def [symmetric]
    using fe by simp
  have s: "sig out = Fin (42.4 - (23.94 + A + P))"
    unfolding computeAll_fields(2) [OF assms] a e A_def P_def by (simp add: jsub_def)
  have fs: "\<lfloor>(42.4 - (23.94 + A + P)) * 10 + 1 / 2\<rfloor> = 55"
    using A P by (simp add: floor_unique)
  show "sigR out = Fin 5.5"
    unfolding computeAll_fields(5) [OF assms] s
    using fs by simp
  show "ag out = Fin 16.06"
    unfolding computeAll_fields(7) [OF assms] h
    by (simp add: fields_page0 orz_def jsub_def)
qed

end
